theory Spec2Isabelle
  imports Main "HOL-Library.Char_ord" "HOL-Library.List_Lexorder" "HOL-Library.Option_ord"
begin

section \<open>Errors\<close>

text \<open>
  The serializer fields that can carry a validation error. \<open>non_field_errors\<close> is the key
  that \<open>BudgetSerializer.validate\<close> raises its error under.
\<close>

datatype field =
    f_name | f_category | f_amount | f_description | f_date | f_transaction_type
  | f_month | f_year | non_field_errors

text \<open>
  \<open>ValidationError\<close> carries the keys of the error dictionary, in the order of the
  serializer's field list (HTTP 400). \<open>Http404\<close> is what \<open>get_object\<close> and the paginator
  raise. \<open>IntegrityError\<close> is raised by the database when a \<open>unique_together\<close>
  constraint is violated; no handler of the views catches it.
\<close>

datatype error = ValidationError "field list" | Http404 | IntegrityError

section \<open>Strings\<close>

text \<open>Python's \<open>str.strip()\<close>: the whitespace code points below 256.\<close>

definition isspace :: "char \<Rightarrow> bool" where
  "isspace c = (let n = (of_char c :: nat)
     in (9 \<le> n \<and> n \<le> 13) \<or> (28 \<le> n \<and> n \<le> 32) \<or> n = 133 \<or> n = 160)"

definition strip :: "string \<Rightarrow> string" where
  "strip s = rev (dropWhile isspace (rev (dropWhile isspace s)))"

text \<open>The \<open>icontains\<close> lookup: case-insensitive containment (ASCII case folding).\<close>

definition lower_char :: "char \<Rightarrow> char" where
  "lower_char c = (let n = (of_char c :: nat)
     in if 65 \<le> n \<and> n \<le> 90 then char_of (n + 32) else c)"

fun contains :: "string \<Rightarrow> string \<Rightarrow> bool" where
  "contains [] n = (n = [])"
| "contains (h # hs) n = (take (length n) (h # hs) = n \<or> contains hs n)"

definition icontains :: "string \<Rightarrow> string \<Rightarrow> bool" where
  "icontains hay needle = contains (map lower_char hay) (map lower_char needle)"

section \<open>The models (transactions/models.py, budgets/models.py)\<close>

text \<open>
  Users are referenced by primary key. Amounts are \<open>DecimalField(decimal_places=2)\<close>
  values, held as a number of hundredths. Dates and timestamps are ordinals.
\<close>

record category =
  cat_id :: nat
  cat_name :: string
  cat_user :: nat
  cat_created_at :: nat

datatype transaction_type = INCOME | EXPENSE | TRANSFER

record transaction =
  tx_id :: nat
  tx_user :: nat
  tx_category :: "nat option"
  tx_amount :: int
  tx_description :: string
  tx_date :: int
  tx_transaction_type :: transaction_type
  tx_created_at :: nat

record budget =
  bg_id :: nat
  bg_user :: nat
  bg_category :: nat
  bg_amount :: int
  bg_month :: int
  bg_year :: int
  bg_created_at :: nat

text \<open>The three tables, each in storage order.\<close>

record store =
  categories :: "category list"
  transactions :: "transaction list"
  budgets :: "budget list"

text \<open>An \<open>AutoField\<close> primary key: one more than the largest key of the table.\<close>

definition next_pk :: "nat list \<Rightarrow> nat" where
  "next_pk pks = Suc (foldr max pks 0)"

text \<open>\<open>Category.Meta.unique_together = ['name', 'user']\<close>, checked against the other rows.\<close>

definition category_unique_violation :: "category \<Rightarrow> category list \<Rightarrow> bool" where
  "category_unique_violation c cs =
     (\<exists>d \<in> set cs. cat_id d \<noteq> cat_id c \<and> cat_name d = cat_name c \<and> cat_user d = cat_user c)"

text \<open>\<open>Budget.Meta.unique_together = ['user', 'category', 'month', 'year']\<close>.\<close>

definition budget_unique_violation :: "budget \<Rightarrow> budget list \<Rightarrow> bool" where
  "budget_unique_violation b bs =
     (\<exists>d \<in> set bs. bg_id d \<noteq> bg_id b \<and> bg_user d = bg_user b \<and> bg_category d = bg_category b
        \<and> bg_month d = bg_month b \<and> bg_year d = bg_year b)"

text \<open>
  Deleting a category row. \<open>Budget.category\<close> is \<open>on_delete=CASCADE\<close>: the budgets that
  reference the category go with it. \<open>Transaction.category\<close> is \<open>on_delete=SET_NULL\<close>:
  the transactions that reference it stay, with the reference set to null.
\<close>

definition category_delete :: "nat \<Rightarrow> store \<Rightarrow> store" where
  "category_delete pk s = s\<lparr>
     categories := filter (\<lambda>c. cat_id c \<noteq> pk) (categories s),
     transactions := map (\<lambda>t. if tx_category t = Some pk then t\<lparr>tx_category := None\<rparr> else t)
                         (transactions s),
     budgets := filter (\<lambda>b. bg_category b \<noteq> pk) (budgets s)\<rparr>"

definition transaction_delete :: "nat \<Rightarrow> store \<Rightarrow> store" where
  "transaction_delete pk s = s\<lparr>transactions := filter (\<lambda>t. tx_id t \<noteq> pk) (transactions s)\<rparr>"

definition budget_delete :: "nat \<Rightarrow> store \<Rightarrow> store" where
  "budget_delete pk s = s\<lparr>budgets := filter (\<lambda>b. bg_id b \<noteq> pk) (budgets s)\<rparr>"

text \<open>The join \<open>category__name\<close> and the nested \<open>category_detail\<close> (id and name).\<close>

definition category_by_pk :: "category list \<Rightarrow> nat \<Rightarrow> category option" where
  "category_by_pk cs pk = find (\<lambda>c. cat_id c = pk) cs"

definition category_detail :: "category list \<Rightarrow> nat option \<Rightarrow> (nat \<times> string) option" where
  "category_detail cs ref = (case ref of None \<Rightarrow> None
     | Some pk \<Rightarrow> map_option (\<lambda>c. (cat_id c, cat_name c)) (category_by_pk cs pk))"

definition category_name :: "category list \<Rightarrow> nat option \<Rightarrow> string option" where
  "category_name cs ref = map_option snd (category_detail cs ref)"

section \<open>Serializer fields\<close>

text \<open>
  The outcome of one field of a serializer: a validation error, \<open>SkipField\<close> (the key is
  absent and the field is not required, or the update is partial), or the validated value.
\<close>

datatype 'a outcome = Fail | Skip | Pass 'a

definition run_validation ::
  "bool \<Rightarrow> bool \<Rightarrow> ('d \<Rightarrow> 'a option) \<Rightarrow> 'd option \<Rightarrow> 'a outcome" where
  "run_validation partial required check data = (case data of
       None \<Rightarrow> (if partial then Skip else if required then Fail else Skip)
     | Some d \<Rightarrow> (case check d of None \<Rightarrow> Fail | Some v \<Rightarrow> Pass v))"

definition passed :: "'a outcome \<Rightarrow> 'a option" where
  "passed r = (case r of Pass v \<Rightarrow> Some v | _ \<Rightarrow> None)"

definition field_error :: "field \<Rightarrow> 'a outcome \<Rightarrow> field list" where
  "field_error f r = (case r of Fail \<Rightarrow> [f] | _ \<Rightarrow> [])"

text \<open>\<open>CharField(max_length=n)\<close>: trims, rejects a blank or too long value.\<close>

definition char_field :: "nat \<Rightarrow> string \<Rightarrow> string option" where
  "char_field max_length data = (let v = strip data
     in if v = [] \<or> max_length < length v then None else Some v)"

text \<open>
  \<open>DecimalField(max_digits=10, decimal_places=2, validators=[MinValueValidator(0.01)])\<close>.
  The limit \<open>0.01\<close> is a binary float, slightly above one hundredth, and the validator
  rejects \<open>value < limit\<close>: of the two-place decimals it rejects those up to \<open>0.01\<close>.
\<close>

definition decimal_field :: "int \<Rightarrow> int option" where
  "decimal_field cents =
     (if cents \<le> 1 \<or> 10 ^ 10 \<le> cents then None else Some cents)"

text \<open>An integer model field with \<open>MinValueValidator(lo)\<close> and \<open>MaxValueValidator(hi)\<close>.\<close>

definition integer_field :: "int \<Rightarrow> int \<Rightarrow> int \<Rightarrow> int option" where
  "integer_field lo hi v = (if v < lo \<or> hi < v then None else Some v)"

text \<open>\<open>TransactionType.choices\<close>.\<close>

definition choice_field :: "string \<Rightarrow> transaction_type option" where
  "choice_field v = (if v = ''IN'' then Some INCOME else if v = ''EX'' then Some EXPENSE
     else if v = ''TR'' then Some TRANSFER else None)"

text \<open>
  \<open>PrimaryKeyRelatedField(queryset=Category.objects.all())\<close>: the key must name a row of
  the whole category table; the field's value is that row.
\<close>

definition primary_key_related_field :: "category list \<Rightarrow> nat \<Rightarrow> category option" where
  "primary_key_related_field cs pk = category_by_pk cs pk"

section \<open>CategorySerializer (transactions/serializers.py)\<close>

record category_payload =
  cp_user :: "nat option"
  cp_name :: "string option"

record category_data =
  cd_user :: "nat option"
  cd_name :: "string option"

definition validate_name :: "string \<Rightarrow> string option" where
  "validate_name v = (if length (strip v) < 2 then None else Some (strip v))"

text \<open>\<open>user\<close> is read-only: whatever the payload holds under that key is dropped.\<close>

definition category_is_valid :: "bool \<Rightarrow> category_payload \<Rightarrow> error + category_data" where
  "category_is_valid partial p =
     (let n = run_validation partial True (\<lambda>d. Option.bind (char_field 100 d) validate_name)
                (cp_name p);
          errs = field_error f_name n
      in if errs \<noteq> [] then Inl (ValidationError errs)
         else Inr \<lparr>cd_user = None, cd_name = passed n\<rparr>)"

text \<open>\<open>Category.objects.create(**validated_data)\<close>, with the database's constraint.\<close>

definition category_insert :: "category_data \<Rightarrow> nat \<Rightarrow> store \<Rightarrow> error + category \<times> store" where
  "category_insert vd now s = (case cd_user vd of
       None \<Rightarrow> Inl IntegrityError
     | Some u \<Rightarrow>
        (let row = \<lparr>cat_id = next_pk (map cat_id (categories s)),
                     cat_name = (case cd_name vd of None \<Rightarrow> [] | Some n \<Rightarrow> n),
                     cat_user = u, cat_created_at = now\<rparr>
         in if category_unique_violation row (categories s) then Inl IntegrityError
            else Inr (row, s\<lparr>categories := categories s @ [row]\<rparr>)))"

definition category_serializer_create ::
  "nat \<Rightarrow> category_data \<Rightarrow> nat \<Rightarrow> store \<Rightarrow> error + category \<times> store" where
  "category_serializer_create user vd now s = category_insert (vd\<lparr>cd_user := Some user\<rparr>) now s"

text \<open>
  \<open>ModelSerializer.update\<close>: every key of the validated data is set on the instance,
  which is then saved.
\<close>

definition category_serializer_update ::
  "category \<Rightarrow> category_data \<Rightarrow> store \<Rightarrow> error + category \<times> store" where
  "category_serializer_update instance vd s =
     (let row = instance\<lparr>
            cat_user := (case cd_user vd of None \<Rightarrow> cat_user instance | Some u \<Rightarrow> u),
            cat_name := (case cd_name vd of None \<Rightarrow> cat_name instance | Some n \<Rightarrow> n)\<rparr>
      in if category_unique_violation row (categories s) then Inl IntegrityError
         else Inr (row, s\<lparr>categories :=
                map (\<lambda>c. if cat_id c = cat_id row then row else c) (categories s)\<rparr>))"

section \<open>TransactionSerializer (transactions/serializers.py)\<close>

text \<open>
  A request body. \<open>None\<close> is an absent key. For \<open>category\<close>, \<open>Some None\<close> is an
  explicit null and \<open>Some (Some pk)\<close> a primary key.
\<close>

record transaction_payload =
  tp_user :: "nat option"
  tp_category :: "nat option option"
  tp_amount :: "int option"
  tp_description :: "string option"
  tp_date :: "int option"
  tp_transaction_type :: "string option"

record transaction_data =
  td_user :: "nat option"
  td_category :: "category option option"
  td_amount :: "int option"
  td_description :: "string option"
  td_date :: "int option"
  td_transaction_type :: "transaction_type option"

definition transaction_validate_amount :: "int \<Rightarrow> int option" where
  "transaction_validate_amount v = (if v \<le> 0 then None else Some v)"

definition validate_description :: "string \<Rightarrow> string option" where
  "validate_description v = (if length (strip v) < 2 then None else Some (strip v))"

text \<open>
  \<open>validate_category\<close>, shared word for word by both serializers: a category instance is
  truthy and the views always put the request in the context, so a supplied category is
  rejected exactly when its owner is not the caller.
\<close>

definition validate_category :: "nat \<Rightarrow> category option \<Rightarrow> category option option" where
  "validate_category user v = (case v of
       None \<Rightarrow> Some None
     | Some c \<Rightarrow> (if cat_user c \<noteq> user then None else Some (Some c)))"

text \<open>The nullable, optional \<open>category\<close> field of the transaction serializer.\<close>

definition transaction_category_field ::
  "category list \<Rightarrow> nat option \<Rightarrow> category option option" where
  "transaction_category_field cs d = (case d of
       None \<Rightarrow> Some None
     | Some pk \<Rightarrow> map_option Some (primary_key_related_field cs pk))"

definition transaction_is_valid ::
  "category list \<Rightarrow> nat \<Rightarrow> bool \<Rightarrow> transaction_payload \<Rightarrow> error + transaction_data" where
  "transaction_is_valid cs user partial p =
     (let c = run_validation partial False
                (\<lambda>d. Option.bind (transaction_category_field cs d) (validate_category user))
                (tp_category p);
          a = run_validation partial True
                (\<lambda>d. Option.bind (decimal_field d) transaction_validate_amount) (tp_amount p);
          d = run_validation partial True
                (\<lambda>d. Option.bind (char_field 255 d) validate_description) (tp_description p);
          t = run_validation partial True Some (tp_date p);
          k = run_validation partial False choice_field (tp_transaction_type p);
          errs = field_error f_category c @ field_error f_amount a @ field_error f_description d
                 @ field_error f_date t @ field_error f_transaction_type k
      in if errs \<noteq> [] then Inl (ValidationError errs)
         else Inr \<lparr>td_user = None, td_category = passed c, td_amount = passed a,
                   td_description = passed d, td_date = passed t,
                   td_transaction_type = passed k\<rparr>)"

text \<open>
  \<open>Transaction.objects.create(**validated_data)\<close>: an absent \<open>category\<close> is null, an
  absent \<open>transaction_type\<close> takes the model's \<open>default=TransactionType.EXPENSE\<close>, an
  absent \<open>description\<close> the empty string; \<open>user\<close>, \<open>amount\<close> and \<open>date\<close> are NOT NULL
  columns without a default.
\<close>

definition transaction_insert ::
  "transaction_data \<Rightarrow> nat \<Rightarrow> store \<Rightarrow> error + transaction \<times> store" where
  "transaction_insert vd now s = (case (td_user vd, td_amount vd, td_date vd) of
       (Some u, Some a, Some dt) \<Rightarrow>
        (let row = \<lparr>tx_id = next_pk (map tx_id (transactions s)), tx_user = u,
                     tx_category = (case td_category vd of None \<Rightarrow> None
                                    | Some c \<Rightarrow> map_option cat_id c),
                     tx_amount = a,
                     tx_description = (case td_description vd of None \<Rightarrow> [] | Some d \<Rightarrow> d),
                     tx_date = dt,
                     tx_transaction_type = (case td_transaction_type vd of None \<Rightarrow> EXPENSE
                                            | Some k \<Rightarrow> k),
                     tx_created_at = now\<rparr>
         in Inr (row, s\<lparr>transactions := transactions s @ [row]\<rparr>))
     | _ \<Rightarrow> Inl IntegrityError)"

definition transaction_serializer_create ::
  "nat \<Rightarrow> transaction_data \<Rightarrow> nat \<Rightarrow> store \<Rightarrow> error + transaction \<times> store" where
  "transaction_serializer_create user vd now s =
     transaction_insert (vd\<lparr>td_user := Some user\<rparr>) now s"

text \<open>\<open>update\<close>: pops \<open>user\<close>, then sets every remaining key on the instance and saves.\<close>

definition transaction_serializer_update ::
  "transaction \<Rightarrow> transaction_data \<Rightarrow> store \<Rightarrow> error + transaction \<times> store" where
  "transaction_serializer_update instance vd0 s =
     (let vd = vd0\<lparr>td_user := None\<rparr>;
          row = instance\<lparr>
            tx_user := (case td_user vd of None \<Rightarrow> tx_user instance | Some u \<Rightarrow> u),
            tx_category := (case td_category vd of None \<Rightarrow> tx_category instance
                            | Some c \<Rightarrow> map_option cat_id c),
            tx_amount := (case td_amount vd of None \<Rightarrow> tx_amount instance | Some a \<Rightarrow> a),
            tx_description := (case td_description vd of None \<Rightarrow> tx_description instance
                               | Some d \<Rightarrow> d),
            tx_date := (case td_date vd of None \<Rightarrow> tx_date instance | Some d \<Rightarrow> d),
            tx_transaction_type := (case td_transaction_type vd of
                                      None \<Rightarrow> tx_transaction_type instance | Some k \<Rightarrow> k)\<rparr>
      in Inr (row, s\<lparr>transactions :=
                map (\<lambda>t. if tx_id t = tx_id row then row else t) (transactions s)\<rparr>))"

section \<open>BudgetSerializer (budgets/serializers.py)\<close>

record budget_payload =
  bp_user :: "nat option"
  bp_category :: "nat option"
  bp_amount :: "int option"
  bp_month :: "int option"
  bp_year :: "int option"

record budget_data =
  bd_user :: "nat option"
  bd_category :: "category option"
  bd_amount :: "int option"
  bd_month :: "int option"
  bd_year :: "int option"

definition budget_validate_amount :: "int \<Rightarrow> int option" where
  "budget_validate_amount v = (if v \<le> 0 then None else Some v)"

definition validate_month :: "int \<Rightarrow> int option" where
  "validate_month v = (if v < 1 \<or> v > 12 then None else Some v)"

text \<open>\<open>current_year\<close> is \<open>timezone.now().year\<close>, read when the request is validated.\<close>

definition validate_year :: "int \<Rightarrow> int \<Rightarrow> int option" where
  "validate_year current_year v =
     (if v < current_year - 5 \<or> v > current_year + 5 then None else Some v)"

text \<open>The required, non-null \<open>category\<close> field followed by \<open>validate_category\<close>.\<close>

definition budget_category_field :: "category list \<Rightarrow> nat \<Rightarrow> nat \<Rightarrow> category option" where
  "budget_category_field cs user pk =
     Option.bind (Option.bind (primary_key_related_field cs pk)
                    (\<lambda>c. validate_category user (Some c))) (\<lambda>v. v)"

text \<open>
  \<open>validate\<close>: the values are read with \<open>data.get\<close>, so a key the request did not send
  is \<open>None\<close>; the query runs only when \<open>user and month and year and category\<close> is truthy.
  \<open>instance\<close> is the row being updated, absent on create.
\<close>

definition validate ::
  "nat \<Rightarrow> budget option \<Rightarrow> budget list \<Rightarrow> budget_data \<Rightarrow> error + budget_data" where
  "validate user instance bs data = (case (bd_month data, bd_year data, bd_category data) of
       (Some month, Some year, Some c) \<Rightarrow>
         (if month \<noteq> 0 \<and> year \<noteq> 0 then
            (let query = filter (\<lambda>b. bg_user b = user \<and> bg_category b = cat_id c
                                      \<and> bg_month b = month \<and> bg_year b = year) bs;
                 query' = (case instance of None \<Rightarrow> query
                           | Some i \<Rightarrow> filter (\<lambda>b. bg_id b \<noteq> bg_id i) query)
             in if query' \<noteq> [] then Inl (ValidationError [non_field_errors]) else Inr data)
          else Inr data)
     | _ \<Rightarrow> Inr data)"

text \<open>
  \<open>is_valid\<close>: the fields in the order of \<open>Meta.fields\<close>; \<open>validate\<close> runs only when
  no field failed.
\<close>

definition budget_is_valid ::
  "category list \<Rightarrow> budget list \<Rightarrow> nat \<Rightarrow> int \<Rightarrow> budget option \<Rightarrow> bool \<Rightarrow> budget_payload
     \<Rightarrow> error + budget_data" where
  "budget_is_valid cs bs user current_year instance partial p =
     (let c = run_validation partial True (budget_category_field cs user) (bp_category p);
          a = run_validation partial True
                (\<lambda>d. Option.bind (decimal_field d) budget_validate_amount) (bp_amount p);
          m = run_validation partial True
                (\<lambda>d. Option.bind (integer_field 1 12 d) validate_month) (bp_month p);
          y = run_validation partial True
                (\<lambda>d. Option.bind (integer_field 2000 2100 d) (validate_year current_year))
                (bp_year p);
          errs = field_error f_category c @ field_error f_amount a @ field_error f_month m
                 @ field_error f_year y
      in if errs \<noteq> [] then Inl (ValidationError errs)
         else validate user instance bs
                \<lparr>bd_user = None, bd_category = passed c, bd_amount = passed a,
                 bd_month = passed m, bd_year = passed y\<rparr>)"

text \<open>\<open>Budget.objects.create(**validated_data)\<close>: every column is NOT NULL.\<close>

definition budget_insert :: "budget_data \<Rightarrow> nat \<Rightarrow> store \<Rightarrow> error + budget \<times> store" where
  "budget_insert vd now s =
     (case (bd_user vd, bd_category vd, bd_amount vd, bd_month vd, bd_year vd) of
       (Some u, Some c, Some a, Some m, Some y) \<Rightarrow>
        (let row = \<lparr>bg_id = next_pk (map bg_id (budgets s)), bg_user = u,
                     bg_category = cat_id c, bg_amount = a, bg_month = m, bg_year = y,
                     bg_created_at = now\<rparr>
         in if budget_unique_violation row (budgets s) then Inl IntegrityError
            else Inr (row, s\<lparr>budgets := budgets s @ [row]\<rparr>))
     | _ \<Rightarrow> Inl IntegrityError)"

definition budget_serializer_create ::
  "nat \<Rightarrow> budget_data \<Rightarrow> nat \<Rightarrow> store \<Rightarrow> error + budget \<times> store" where
  "budget_serializer_create user vd now s = budget_insert (vd\<lparr>bd_user := Some user\<rparr>) now s"

definition budget_serializer_update ::
  "budget \<Rightarrow> budget_data \<Rightarrow> store \<Rightarrow> error + budget \<times> store" where
  "budget_serializer_update instance vd0 s =
     (let vd = vd0\<lparr>bd_user := None\<rparr>;
          row = instance\<lparr>
            bg_user := (case bd_user vd of None \<Rightarrow> bg_user instance | Some u \<Rightarrow> u),
            bg_category := (case bd_category vd of None \<Rightarrow> bg_category instance
                            | Some c \<Rightarrow> cat_id c),
            bg_amount := (case bd_amount vd of None \<Rightarrow> bg_amount instance | Some a \<Rightarrow> a),
            bg_month := (case bd_month vd of None \<Rightarrow> bg_month instance | Some m \<Rightarrow> m),
            bg_year := (case bd_year vd of None \<Rightarrow> bg_year instance | Some y \<Rightarrow> y)\<rparr>
      in if budget_unique_violation row (budgets s) then Inl IntegrityError
         else Inr (row, s\<lparr>budgets :=
                map (\<lambda>b. if bg_id b = bg_id row then row else b) (budgets s)\<rparr>))"

text \<open>\<open>to_representation\<close>: the row, the nested category and the derived month name.\<close>

definition month_names :: "int \<Rightarrow> string option" where
  "month_names = map_of
     [(1, ''January''), (2, ''February''), (3, ''March''), (4, ''April''),
      (5, ''May''), (6, ''June''), (7, ''July''), (8, ''August''),
      (9, ''September''), (10, ''October''), (11, ''November''), (12, ''December'')]"

record budget_representation =
  br_row :: budget
  br_category_detail :: "(nat \<times> string) option"
  br_month_name :: "string option"

definition budget_to_representation :: "category list \<Rightarrow> budget \<Rightarrow> budget_representation" where
  "budget_to_representation cs b =
     \<lparr>br_row = b, br_category_detail = category_detail cs (Some (bg_category b)),
      br_month_name = month_names (bg_month b)\<rparr>"

record transaction_representation =
  tr_row :: transaction
  tr_category_detail :: "(nat \<times> string) option"

definition transaction_to_representation ::
  "category list \<Rightarrow> transaction \<Rightarrow> transaction_representation" where
  "transaction_to_representation cs t =
     \<lparr>tr_row = t, tr_category_detail = category_detail cs (tx_category t)\<rparr>"

section \<open>Filter backends and pagination (rest_framework, as configured by the views)\<close>

datatype cmp = LT | EQ | GT

definition compare :: "'a::linorder \<Rightarrow> 'a \<Rightarrow> cmp" where
  "compare a b = (if a < b then LT else if a = b then EQ else GT)"

definition flip :: "cmp \<Rightarrow> cmp" where
  "flip c = (case c of LT \<Rightarrow> GT | EQ \<Rightarrow> EQ | GT \<Rightarrow> LT)"

text \<open>An ordering term is a field name, descending when it starts with a minus sign.\<close>

definition term_name :: "string \<Rightarrow> string" where
  "term_name t = (case t of [] \<Rightarrow> [] | c # r \<Rightarrow> if c = CHR ''-'' then r else t)"

definition term_desc :: "string \<Rightarrow> bool" where
  "term_desc t = (case t of [] \<Rightarrow> False | c # r \<Rightarrow> c = CHR ''-'')"

text \<open>
  \<open>OrderingFilter.get_ordering\<close>: the terms of the \<open>ordering\<close> parameter that name one of
  \<open>ordering_fields\<close>; if none is left, the view's \<open>ordering\<close>.
\<close>

definition get_ordering :: "string list \<Rightarrow> string list \<Rightarrow> string list \<Rightarrow> string list" where
  "get_ordering ordering_fields view_ordering params =
     (let ordering = filter (\<lambda>t. term_name t \<in> set ordering_fields) params
      in if ordering \<noteq> [] then ordering else view_ordering)"

fun cmp_terms :: "(string \<Rightarrow> 'r \<Rightarrow> 'r \<Rightarrow> cmp) \<Rightarrow> string list \<Rightarrow> 'r \<Rightarrow> 'r \<Rightarrow> cmp" where
  "cmp_terms f [] a b = EQ"
| "cmp_terms f (t # ts) a b =
     (case (if term_desc t then flip (f (term_name t) a b) else f (term_name t) a b) of
        EQ \<Rightarrow> cmp_terms f ts a b
      | c \<Rightarrow> c)"

text \<open>
  \<open>order_by\<close>: rows sorted by the terms. Rows that compare equal on every term stay in
  storage order (SQL leaves their order open).
\<close>

fun insort_by :: "('r \<Rightarrow> 'r \<Rightarrow> bool) \<Rightarrow> 'r \<Rightarrow> 'r list \<Rightarrow> 'r list" where
  "insort_by le x [] = [x]"
| "insort_by le x (y # ys) = (if le x y then x # y # ys else y # insort_by le x ys)"

definition order_by :: "(string \<Rightarrow> 'r \<Rightarrow> 'r \<Rightarrow> cmp) \<Rightarrow> string list \<Rightarrow> 'r list \<Rightarrow> 'r list" where
  "order_by f ts rows = foldr (insort_by (\<lambda>a b. cmp_terms f ts a b \<noteq> GT)) rows []"

text \<open>
  \<open>StandardResultsSetPagination\<close>: \<open>page_size = 10\<close>, \<open>max_page_size = 100\<close>, the client
  may send \<open>page_size\<close>; a page number outside the pages is a 404.
\<close>

definition get_page_size :: "int option \<Rightarrow> nat" where
  "get_page_size page_size = (case page_size of
       None \<Rightarrow> 10
     | Some n \<Rightarrow> if n \<le> 0 then 10 else nat (min n 100))"

definition paginate_queryset :: "int option \<Rightarrow> int option \<Rightarrow> 'r list \<Rightarrow> error + 'r list" where
  "paginate_queryset page page_size rows =
     (let per_page = get_page_size page_size;
          number = (case page of None \<Rightarrow> 1 | Some n \<Rightarrow> n);
          num_pages = (max 1 (length rows) + per_page - 1) div per_page
      in if number < 1 \<or> int num_pages < number then Inl Http404
         else Inr (take per_page (drop ((nat number - 1) * per_page) rows)))"

section \<open>CategoryViewSet (transactions/views.py)\<close>

text \<open>
  The query parameters of a request: the \<open>CategoryFilter\<close> lookups, the words of
  \<open>search\<close>, the comma-separated terms of \<open>ordering\<close>, \<open>page\<close> and \<open>page_size\<close>.
\<close>

record category_query =
  cq_name :: "string option"
  cq_search :: "string list"
  cq_ordering :: "string list"
  cq_page :: "int option"
  cq_page_size :: "int option"

definition category_get_queryset :: "nat \<Rightarrow> store \<Rightarrow> category list" where
  "category_get_queryset user s = filter (\<lambda>c. cat_user c = user) (categories s)"

definition category_filter :: "category_query \<Rightarrow> category list \<Rightarrow> category list" where
  "category_filter q rows = filter (\<lambda>c.
       (case cq_name q of None \<Rightarrow> True | Some n \<Rightarrow> icontains (cat_name c) n)
     \<and> (\<forall>w \<in> set (cq_search q). icontains (cat_name c) w)) rows"

definition category_cmp :: "string \<Rightarrow> category \<Rightarrow> category \<Rightarrow> cmp" where
  "category_cmp f a b =
     (if f = ''name'' then compare (cat_name a) (cat_name b)
      else if f = ''created_at'' then compare (cat_created_at a) (cat_created_at b)
      else EQ)"

definition category_filter_queryset :: "category_query \<Rightarrow> category list \<Rightarrow> category list" where
  "category_filter_queryset q rows =
     order_by category_cmp (get_ordering [''name'', ''created_at''] [''name''] (cq_ordering q))
       (category_filter q rows)"

text \<open>
  \<open>get_object\<close>: the row with the primary key of the URL, looked up in the filtered
  queryset of the caller; 404 when it is not there.
\<close>

definition category_get_object :: "nat \<Rightarrow> category_query \<Rightarrow> nat \<Rightarrow> store \<Rightarrow> error + category" where
  "category_get_object user q pk s =
     (case find (\<lambda>c. cat_id c = pk) (category_filter_queryset q (category_get_queryset user s)) of
        None \<Rightarrow> Inl Http404
      | Some c \<Rightarrow> Inr c)"

definition category_list :: "nat \<Rightarrow> category_query \<Rightarrow> store \<Rightarrow> error + category list" where
  "category_list user q s =
     paginate_queryset (cq_page q) (cq_page_size q)
       (category_filter_queryset q (category_get_queryset user s))"

definition category_retrieve :: "nat \<Rightarrow> category_query \<Rightarrow> nat \<Rightarrow> store \<Rightarrow> error + category" where
  "category_retrieve user q pk s = category_get_object user q pk s"

definition category_create ::
  "nat \<Rightarrow> category_payload \<Rightarrow> nat \<Rightarrow> store \<Rightarrow> error + category \<times> store" where
  "category_create user p now s = (case category_is_valid False p of
       Inl e \<Rightarrow> Inl e
     | Inr vd \<Rightarrow> category_serializer_create user vd now s)"

text \<open>\<open>update\<close> (PUT) has \<open>partial = False\<close>, \<open>partial_update\<close> (PATCH) \<open>partial = True\<close>.\<close>

definition category_update ::
  "nat \<Rightarrow> category_query \<Rightarrow> nat \<Rightarrow> bool \<Rightarrow> category_payload \<Rightarrow> store
     \<Rightarrow> error + category \<times> store" where
  "category_update user q pk partial p s = (case category_get_object user q pk s of
       Inl e \<Rightarrow> Inl e
     | Inr instance \<Rightarrow> (case category_is_valid partial p of
          Inl e \<Rightarrow> Inl e
        | Inr vd \<Rightarrow> category_serializer_update instance vd s))"

definition category_destroy :: "nat \<Rightarrow> category_query \<Rightarrow> nat \<Rightarrow> store \<Rightarrow> error + store" where
  "category_destroy user q pk s = (case category_get_object user q pk s of
       Inl e \<Rightarrow> Inl e
     | Inr instance \<Rightarrow> Inr (category_delete (cat_id instance) s))"

section \<open>TransactionViewSet (transactions/views.py)\<close>

record transaction_query =
  tq_category :: "nat option"
  tq_min_amount :: "int option"
  tq_max_amount :: "int option"
  tq_start_date :: "int option"
  tq_end_date :: "int option"
  tq_transaction_type :: "transaction_type option"
  tq_search :: "string list"
  tq_ordering :: "string list"
  tq_page :: "int option"
  tq_page_size :: "int option"

definition transaction_get_queryset :: "nat \<Rightarrow> store \<Rightarrow> transaction list" where
  "transaction_get_queryset user s = filter (\<lambda>t. tx_user t = user) (transactions s)"

definition transaction_filter ::
  "category list \<Rightarrow> transaction_query \<Rightarrow> transaction list \<Rightarrow> transaction list" where
  "transaction_filter cs q rows = filter (\<lambda>t.
       (case tq_category q of None \<Rightarrow> True | Some k \<Rightarrow> tx_category t = Some k)
     \<and> (case tq_min_amount q of None \<Rightarrow> True | Some a \<Rightarrow> a \<le> tx_amount t)
     \<and> (case tq_max_amount q of None \<Rightarrow> True | Some a \<Rightarrow> tx_amount t \<le> a)
     \<and> (case tq_start_date q of None \<Rightarrow> True | Some d \<Rightarrow> d \<le> tx_date t)
     \<and> (case tq_end_date q of None \<Rightarrow> True | Some d \<Rightarrow> tx_date t \<le> d)
     \<and> (case tq_transaction_type q of None \<Rightarrow> True | Some k \<Rightarrow> tx_transaction_type t = k)
     \<and> (\<forall>w \<in> set (tq_search q). icontains (tx_description t) w
           \<or> (case category_name cs (tx_category t) of None \<Rightarrow> False
               | Some n \<Rightarrow> icontains n w))) rows"

definition transaction_cmp :: "category list \<Rightarrow> string \<Rightarrow> transaction \<Rightarrow> transaction \<Rightarrow> cmp" where
  "transaction_cmp cs f a b =
     (if f = ''date'' then compare (tx_date a) (tx_date b)
      else if f = ''amount'' then compare (tx_amount a) (tx_amount b)
      else if f = ''created_at'' then compare (tx_created_at a) (tx_created_at b)
      else if f = ''category__name''
        then compare (category_name cs (tx_category a)) (category_name cs (tx_category b))
      else EQ)"

definition transaction_filter_queryset ::
  "category list \<Rightarrow> transaction_query \<Rightarrow> transaction list \<Rightarrow> transaction list" where
  "transaction_filter_queryset cs q rows =
     order_by (transaction_cmp cs)
       (get_ordering [''date'', ''amount'', ''created_at'', ''category__name''] [''-date'']
          (tq_ordering q))
       (transaction_filter cs q rows)"

definition transaction_get_object ::
  "nat \<Rightarrow> transaction_query \<Rightarrow> nat \<Rightarrow> store \<Rightarrow> error + transaction" where
  "transaction_get_object user q pk s =
     (case find (\<lambda>t. tx_id t = pk)
             (transaction_filter_queryset (categories s) q (transaction_get_queryset user s)) of
        None \<Rightarrow> Inl Http404
      | Some t \<Rightarrow> Inr t)"

definition transaction_list ::
  "nat \<Rightarrow> transaction_query \<Rightarrow> store \<Rightarrow> error + transaction_representation list" where
  "transaction_list user q s =
     map_sum (\<lambda>e. e) (map (transaction_to_representation (categories s)))
       (paginate_queryset (tq_page q) (tq_page_size q)
          (transaction_filter_queryset (categories s) q (transaction_get_queryset user s)))"

definition transaction_retrieve ::
  "nat \<Rightarrow> transaction_query \<Rightarrow> nat \<Rightarrow> store \<Rightarrow> error + transaction_representation" where
  "transaction_retrieve user q pk s =
     map_sum (\<lambda>e. e) (transaction_to_representation (categories s))
       (transaction_get_object user q pk s)"

definition transaction_create ::
  "nat \<Rightarrow> transaction_payload \<Rightarrow> nat \<Rightarrow> store \<Rightarrow> error + transaction \<times> store" where
  "transaction_create user p now s = (case transaction_is_valid (categories s) user False p of
       Inl e \<Rightarrow> Inl e
     | Inr vd \<Rightarrow> transaction_serializer_create user vd now s)"

definition transaction_update ::
  "nat \<Rightarrow> transaction_query \<Rightarrow> nat \<Rightarrow> bool \<Rightarrow> transaction_payload \<Rightarrow> store
     \<Rightarrow> error + transaction \<times> store" where
  "transaction_update user q pk partial p s = (case transaction_get_object user q pk s of
       Inl e \<Rightarrow> Inl e
     | Inr instance \<Rightarrow> (case transaction_is_valid (categories s) user partial p of
          Inl e \<Rightarrow> Inl e
        | Inr vd \<Rightarrow> transaction_serializer_update instance vd s))"

definition transaction_destroy :: "nat \<Rightarrow> transaction_query \<Rightarrow> nat \<Rightarrow> store \<Rightarrow> error + store" where
  "transaction_destroy user q pk s = (case transaction_get_object user q pk s of
       Inl e \<Rightarrow> Inl e
     | Inr instance \<Rightarrow> Inr (transaction_delete (tx_id instance) s))"

section \<open>BudgetViewSet (budgets/views.py)\<close>

record budget_query =
  bq_category :: "nat option"
  bq_month :: "int option"
  bq_year :: "int option"
  bq_min_amount :: "int option"
  bq_max_amount :: "int option"
  bq_search :: "string list"
  bq_ordering :: "string list"
  bq_page :: "int option"
  bq_page_size :: "int option"

definition budget_get_queryset :: "nat \<Rightarrow> store \<Rightarrow> budget list" where
  "budget_get_queryset user s = filter (\<lambda>b. bg_user b = user) (budgets s)"

definition budget_filter :: "category list \<Rightarrow> budget_query \<Rightarrow> budget list \<Rightarrow> budget list" where
  "budget_filter cs q rows = filter (\<lambda>b.
       (case bq_category q of None \<Rightarrow> True | Some k \<Rightarrow> bg_category b = k)
     \<and> (case bq_month q of None \<Rightarrow> True | Some m \<Rightarrow> bg_month b = m)
     \<and> (case bq_year q of None \<Rightarrow> True | Some y \<Rightarrow> bg_year b = y)
     \<and> (case bq_min_amount q of None \<Rightarrow> True | Some a \<Rightarrow> a \<le> bg_amount b)
     \<and> (case bq_max_amount q of None \<Rightarrow> True | Some a \<Rightarrow> bg_amount b \<le> a)
     \<and> (\<forall>w \<in> set (bq_search q).
           (case category_name cs (Some (bg_category b)) of None \<Rightarrow> False
            | Some n \<Rightarrow> icontains n w))) rows"

definition budget_cmp :: "category list \<Rightarrow> string \<Rightarrow> budget \<Rightarrow> budget \<Rightarrow> cmp" where
  "budget_cmp cs f a b =
     (if f = ''year'' then compare (bg_year a) (bg_year b)
      else if f = ''month'' then compare (bg_month a) (bg_month b)
      else if f = ''amount'' then compare (bg_amount a) (bg_amount b)
      else if f = ''category__name''
        then compare (category_name cs (Some (bg_category a)))
               (category_name cs (Some (bg_category b)))
      else EQ)"

text \<open>\<open>ordering = ['-year', '-month']\<close>, as in \<open>Budget.Meta.ordering\<close>.\<close>

definition budget_filter_queryset ::
  "category list \<Rightarrow> budget_query \<Rightarrow> budget list \<Rightarrow> budget list" where
  "budget_filter_queryset cs q rows =
     order_by (budget_cmp cs)
       (get_ordering [''year'', ''month'', ''amount'', ''category__name''] [''-year'', ''-month'']
          (bq_ordering q))
       (budget_filter cs q rows)"

definition budget_get_object :: "nat \<Rightarrow> budget_query \<Rightarrow> nat \<Rightarrow> store \<Rightarrow> error + budget" where
  "budget_get_object user q pk s =
     (case find (\<lambda>b. bg_id b = pk)
             (budget_filter_queryset (categories s) q (budget_get_queryset user s)) of
        None \<Rightarrow> Inl Http404
      | Some b \<Rightarrow> Inr b)"

definition budget_list :: "nat \<Rightarrow> budget_query \<Rightarrow> store \<Rightarrow> error + budget_representation list" where
  "budget_list user q s =
     map_sum (\<lambda>e. e) (map (budget_to_representation (categories s)))
       (paginate_queryset (bq_page q) (bq_page_size q)
          (budget_filter_queryset (categories s) q (budget_get_queryset user s)))"

definition budget_retrieve ::
  "nat \<Rightarrow> budget_query \<Rightarrow> nat \<Rightarrow> store \<Rightarrow> error + budget_representation" where
  "budget_retrieve user q pk s =
     map_sum (\<lambda>e. e) (budget_to_representation (categories s)) (budget_get_object user q pk s)"

definition budget_create ::
  "nat \<Rightarrow> int \<Rightarrow> budget_payload \<Rightarrow> nat \<Rightarrow> store \<Rightarrow> error + budget \<times> store" where
  "budget_create user current_year p now s =
     (case budget_is_valid (categories s) (budgets s) user current_year None False p of
        Inl e \<Rightarrow> Inl e
      | Inr vd \<Rightarrow> budget_serializer_create user vd now s)"

definition budget_update ::
  "nat \<Rightarrow> int \<Rightarrow> budget_query \<Rightarrow> nat \<Rightarrow> bool \<Rightarrow> budget_payload \<Rightarrow> store
     \<Rightarrow> error + budget \<times> store" where
  "budget_update user current_year q pk partial p s = (case budget_get_object user q pk s of
       Inl e \<Rightarrow> Inl e
     | Inr instance \<Rightarrow>
        (case budget_is_valid (categories s) (budgets s) user current_year (Some instance)
                partial p of
           Inl e \<Rightarrow> Inl e
         | Inr vd \<Rightarrow> budget_serializer_update instance vd s))"

definition budget_destroy :: "nat \<Rightarrow> budget_query \<Rightarrow> nat \<Rightarrow> store \<Rightarrow> error + store" where
  "budget_destroy user q pk s = (case budget_get_object user q pk s of
       Inl e \<Rightarrow> Inl e
     | Inr instance \<Rightarrow> Inr (budget_delete (bg_id instance) s))"

section \<open>Accounts (accounts/views.py)\<close>

text \<open>
  A user row of \<open>django.contrib.auth\<close>. The password column holds the credential; hashing
  is left out, so that \<open>check_password\<close> is equality with the stored value.
\<close>

record user =
  u_id :: nat
  u_username :: string
  u_email :: string
  u_password :: string
  u_first_name :: string
  u_last_name :: string
  u_is_active :: bool

text \<open>
  A row of \<open>rest_framework.authtoken.models.Token\<close>: the key is the primary key, the user
  a one-to-one field.
\<close>

record token =
  tk_key :: string
  tk_user :: nat

record accounts =
  acc_users :: "user list"
  acc_tokens :: "token list"

text \<open>\<open>Token.objects.get(user=u)\<close>; \<open>None\<close> is \<open>Token.DoesNotExist\<close>.\<close>

definition token_get :: "nat \<Rightarrow> token list \<Rightarrow> token option" where
  "token_get u ts = find (\<lambda>t. tk_user t = u) ts"

text \<open>
  \<open>Token.objects.create(user=u)\<close>. The key is 40 random hexadecimal digits; the draw \<open>k\<close>
  is an argument. The insert fails when the key or the user is already in the table.
\<close>

definition token_create :: "nat \<Rightarrow> string \<Rightarrow> token list \<Rightarrow> error + token \<times> token list" where
  "token_create u k ts =
     (if (\<exists>t \<in> set ts. tk_key t = k \<or> tk_user t = u) then Inl IntegrityError
      else Inr (\<lparr>tk_key = k, tk_user = u\<rparr>, ts @ [\<lparr>tk_key = k, tk_user = u\<rparr>]))"

definition token_get_or_create ::
  "nat \<Rightarrow> string \<Rightarrow> token list \<Rightarrow> error + token \<times> token list" where
  "token_get_or_create u k ts = (case token_get u ts of
       Some t \<Rightarrow> Inr (t, ts)
     | None \<Rightarrow> token_create u k ts)"

text \<open>\<open>token.delete()\<close>: the row with the token's primary key.\<close>

definition token_delete :: "token \<Rightarrow> token list \<Rightarrow> token list" where
  "token_delete tok ts = filter (\<lambda>t. tk_key t \<noteq> tk_key tok) ts"


record registration =
  rg_username :: string
  rg_email :: string
  rg_password :: string
  rg_first_name :: string
  rg_last_name :: string

text \<open>
  The serializers of \<open>accounts/serializers.py\<close>, which the views import. The views are
  written against them as parameters: validation reads the user table, \<open>save\<close> writes it,
  and none of them touches the token table.
\<close>

record serializers =
  registration_is_valid :: "user list \<Rightarrow> registration \<Rightarrow> bool"
  registration_save :: "registration \<Rightarrow> user list \<Rightarrow> user \<times> user list"
  login_is_valid :: "user list \<Rightarrow> string \<Rightarrow> string \<Rightarrow> user option"
  password_change_is_valid :: "user list \<Rightarrow> nat \<Rightarrow> string \<Rightarrow> string \<Rightarrow> bool"
  password_change_save :: "nat \<Rightarrow> string \<Rightarrow> user list \<Rightarrow> user list"

text \<open>
  The responses of the account views: success (with the token key, where one is returned),
  400 \<open>Validation failed\<close> or \<open>Login failed\<close>, 400 \<open>Token not found\<close>, the 400 of an
  \<open>except Exception\<close> branch, and an exception that no branch catches.
\<close>

datatype auth_response =
  Success "string option" | Validation_failed | Token_not_found | Failed | Server_error

text \<open>\<open>UserRegistrationView.post\<close>. A user saved before an exception stays saved.\<close>

definition registration_post ::
  "serializers \<Rightarrow> registration \<Rightarrow> string \<Rightarrow> accounts \<Rightarrow> auth_response \<times> accounts" where
  "registration_post sz r k a =
     (if registration_is_valid sz (acc_users a) r then
        (case registration_save sz r (acc_users a) of (user, us) \<Rightarrow>
           (case token_get_or_create (u_id user) k (acc_tokens a) of
              Inr (tok, ts) \<Rightarrow> (Success (Some (tk_key tok)), \<lparr>acc_users = us, acc_tokens = ts\<rparr>)
            | Inl e \<Rightarrow> (Failed, \<lparr>acc_users = us, acc_tokens = acc_tokens a\<rparr>)))
      else (Validation_failed, a))"

text \<open>
  \<open>UserLoginView.post\<close>. The session that \<open>login(request, user)\<close> opens is not part of
  the token table and is left out.
\<close>

definition login_post ::
  "serializers \<Rightarrow> string \<Rightarrow> string \<Rightarrow> string \<Rightarrow> accounts \<Rightarrow> auth_response \<times> accounts" where
  "login_post sz ident pw k a = (case login_is_valid sz (acc_users a) ident pw of
       None \<Rightarrow> (Validation_failed, a)
     | Some user \<Rightarrow>
        (case token_get_or_create (u_id user) k (acc_tokens a) of
           Inr (tok, ts) \<Rightarrow> (Success (Some (tk_key tok)), a\<lparr>acc_tokens := ts\<rparr>)
         | Inl e \<Rightarrow> (Server_error, a)))"

text \<open>\<open>UserLogoutView.post\<close>, for the authenticated caller \<open>request.user\<close>.\<close>

definition logout_post :: "nat \<Rightarrow> accounts \<Rightarrow> auth_response \<times> accounts" where
  "logout_post caller a = (case token_get caller (acc_tokens a) of
       None \<Rightarrow> (Token_not_found, a)
     | Some tok \<Rightarrow> (Success None, a\<lparr>acc_tokens := token_delete tok (acc_tokens a)\<rparr>))"

text \<open>
  \<open>PasswordChangeView.post\<close>: after \<open>serializer.save()\<close> the old token is fetched and
  deleted and a new one created; an exception on the way gives the 400 of the \<open>except\<close>
  branch and leaves what was written before it.
\<close>

definition password_change_post ::
  "serializers \<Rightarrow> nat \<Rightarrow> string \<Rightarrow> string \<Rightarrow> string \<Rightarrow> accounts
     \<Rightarrow> auth_response \<times> accounts" where
  "password_change_post sz caller old new k a =
     (if password_change_is_valid sz (acc_users a) caller old new then
        (let us = password_change_save sz caller new (acc_users a)
         in case token_get caller (acc_tokens a) of
              None \<Rightarrow> (Failed, \<lparr>acc_users = us, acc_tokens = acc_tokens a\<rparr>)
            | Some old_token \<Rightarrow>
               (let ts = token_delete old_token (acc_tokens a)
                in case token_create caller k ts of
                     Inl e \<Rightarrow> (Failed, \<lparr>acc_users = us, acc_tokens = ts\<rparr>)
                   | Inr (new_token, ts') \<Rightarrow>
                       (Success (Some (tk_key new_token)),
                        \<lparr>acc_users = us, acc_tokens = ts'\<rparr>)))
      else (Validation_failed, a))"







section \<open>The serializers of the accounts\<close>

text \<open>
  Modelled from the spec: \<open>UserRegistrationSerializer\<close> of accounts/serializers.py, which is
  not among the sources. Section 4.1: Register creates a user with validated-unique username
  and email and a hashed password, and fails on a duplicate username or email, a weak
  password or a malformed email. The password policy and the email format are parameters.
\<close>

definition spec_registration_is_valid ::
  "(string \<Rightarrow> bool) \<Rightarrow> (string \<Rightarrow> bool) \<Rightarrow> user list \<Rightarrow> registration \<Rightarrow> bool" where
  "spec_registration_is_valid policy email_ok us r =
     ((\<forall>u \<in> set us. u_username u \<noteq> rg_username r) \<and> (\<forall>u \<in> set us. u_email u \<noteq> rg_email r)
      \<and> policy (rg_password r) \<and> email_ok (rg_email r))"

definition spec_registration_save :: "registration \<Rightarrow> user list \<Rightarrow> user \<times> user list" where
  "spec_registration_save r us =
     (let u = \<lparr>u_id = next_pk (map u_id us), u_username = rg_username r, u_email = rg_email r,
                u_password = rg_password r, u_first_name = rg_first_name r,
                u_last_name = rg_last_name r, u_is_active = True\<rparr>
      in (u, us @ [u]))"

text \<open>
  Modelled from the spec: \<open>UserLoginSerializer\<close> of accounts/serializers.py, which is not
  among the sources. Section 4.1: Login takes a username or an email and a password and
  verifies the credential.
\<close>

definition spec_login_is_valid :: "user list \<Rightarrow> string \<Rightarrow> string \<Rightarrow> user option" where
  "spec_login_is_valid us ident pw =
     find (\<lambda>u. (u_username u = ident \<or> u_email u = ident) \<and> u_password u = pw) us"

text \<open>
  Modelled from the spec: \<open>PasswordChangeSerializer\<close> of accounts/serializers.py, which is
  not among the sources. Section 4.1: ChangePassword verifies the old password and sets the
  new one, and fails with a validation error if the old password is wrong or the new
  password fails the policy.
\<close>

definition spec_password_change_is_valid ::
  "(string \<Rightarrow> bool) \<Rightarrow> user list \<Rightarrow> nat \<Rightarrow> string \<Rightarrow> string \<Rightarrow> bool" where
  "spec_password_change_is_valid policy us caller old new =
     (case find (\<lambda>u. u_id u = caller) us of
        None \<Rightarrow> False
      | Some u \<Rightarrow> u_password u = old \<and> policy new)"

definition spec_password_change_save :: "nat \<Rightarrow> string \<Rightarrow> user list \<Rightarrow> user list" where
  "spec_password_change_save caller new us =
     map (\<lambda>u. if u_id u = caller then u\<lparr>u_password := new\<rparr> else u) us"

definition spec_serializers :: "(string \<Rightarrow> bool) \<Rightarrow> (string \<Rightarrow> bool) \<Rightarrow> serializers" where
  "spec_serializers policy email_ok =
     \<lparr>registration_is_valid = spec_registration_is_valid policy email_ok,
      registration_save = spec_registration_save,
      login_is_valid = spec_login_is_valid,
      password_change_is_valid = spec_password_change_is_valid policy,
      password_change_save = spec_password_change_save\<rparr>"

section \<open>Stores and responses\<close>

text \<open>Primary keys are unique within each table.\<close>

definition pks_unique :: "store \<Rightarrow> bool" where
  "pks_unique s = (distinct (map cat_id (categories s)) \<and> distinct (map tx_id (transactions s))
     \<and> distinct (map bg_id (budgets s)))"

text \<open>
  Every category that a transaction or a budget references exists and belongs to the owner
  of the referencing row: what \<open>validate_category\<close> admits and the foreign keys keep.
\<close>

definition refs_ok :: "store \<Rightarrow> bool" where
  "refs_ok s =
     ((\<forall>t \<in> set (transactions s). case tx_category t of
          None \<Rightarrow> True
        | Some k \<Rightarrow> (\<exists>c \<in> set (categories s). cat_id c = k \<and> cat_user c = tx_user t))
    \<and> (\<forall>b \<in> set (budgets s).
          \<exists>c \<in> set (categories s). cat_id c = bg_category b \<and> cat_user c = bg_user b))"

definition well_formed :: "store \<Rightarrow> bool" where
  "well_formed s = (pks_unique s \<and> refs_ok s)"

text \<open>The rows of one user.\<close>

definition rows_of :: "nat \<Rightarrow> store \<Rightarrow> store" where
  "rows_of u s = \<lparr>categories = filter (\<lambda>c. cat_user c = u) (categories s),
     transactions = filter (\<lambda>t. tx_user t = u) (transactions s),
     budgets = filter (\<lambda>b. bg_user b = u) (budgets s)\<rparr>"

text \<open>A response is a validation error that names the field \<open>f\<close>.\<close>

definition rejects :: "field \<Rightarrow> error + 'a \<Rightarrow> bool" where
  "rejects f r = (case r of Inl (ValidationError errs) \<Rightarrow> f \<in> set errs | _ \<Rightarrow> False)"

text \<open>The years that both the model validators and \<open>validate_year\<close> let through.\<close>

definition in_year_window :: "int \<Rightarrow> int \<Rightarrow> bool" where
  "in_year_window current_year y =
     (2000 \<le> y \<and> y \<le> 2100 \<and> current_year - 5 \<le> y \<and> y \<le> current_year + 5)"

section \<open>Example data\<close>

definition alice_groceries :: category where
  "alice_groceries = \<lparr>cat_id = 1, cat_name = ''Groceries'', cat_user = 1, cat_created_at = 0\<rparr>"

definition bob_rent :: category where
  "bob_rent = \<lparr>cat_id = 2, cat_name = ''Rent'', cat_user = 2, cat_created_at = 0\<rparr>"

definition two_categories :: store where
  "two_categories = \<lparr>categories = [alice_groceries, bob_rent], transactions = [], budgets = []\<rparr>"

definition weekly_shop :: transaction_payload where
  "weekly_shop = \<lparr>tp_user = Some 2, tp_category = None, tp_amount = Some 4550,
     tp_description = Some ''Weekly shop'', tp_date = Some 20240501,
     tp_transaction_type = None\<rparr>"

definition weekly_shop_row :: transaction where
  "weekly_shop_row = \<lparr>tx_id = 1, tx_user = 1, tx_category = None, tx_amount = 4550,
     tx_description = ''Weekly shop'', tx_date = 20240501, tx_transaction_type = EXPENSE,
     tx_created_at = 7\<rparr>"

definition no_category_query :: category_query where
  "no_category_query = \<lparr>cq_name = None, cq_search = [], cq_ordering = [], cq_page = None,
     cq_page_size = None\<rparr>"

definition alice_budget :: budget where
  "alice_budget = \<lparr>bg_id = 1, bg_user = 1, bg_category = 1, bg_amount = 30000, bg_month = 5,
     bg_year = 2024, bg_created_at = 8\<rparr>"

definition bob_budget :: budget where
  "bob_budget = \<lparr>bg_id = 2, bg_user = 2, bg_category = 2, bg_amount = 90000, bg_month = 5,
     bg_year = 2024, bg_created_at = 9\<rparr>"

definition groceries_store :: store where
  "groceries_store = \<lparr>categories = [alice_groceries, bob_rent],
     transactions = [weekly_shop_row\<lparr>tx_category := Some 1\<rparr>, weekly_shop_row\<lparr>tx_id := 2\<rparr>],
     budgets = [alice_budget, bob_budget]\<rparr>"

definition no_budget_query :: budget_query where
  "no_budget_query = \<lparr>bq_category = None, bq_month = None, bq_year = None, bq_min_amount = None,
     bq_max_amount = None, bq_search = [], bq_ordering = [], bq_page = None, bq_page_size = None\<rparr>"

definition raise_budget :: budget_payload where
  "raise_budget = \<lparr>bp_user = Some 2, bp_category = None, bp_amount = Some 35000,
     bp_month = None, bp_year = None\<rparr>"

definition may_budget :: "int \<Rightarrow> int \<Rightarrow> budget_payload" where
  "may_budget m y = \<lparr>bp_user = None, bp_category = Some 1, bp_amount = Some 30000,
     bp_month = Some m, bp_year = Some y\<rparr>"

definition no_transaction_query :: transaction_query where
  "no_transaction_query = \<lparr>tq_category = None, tq_min_amount = None, tq_max_amount = None,
     tq_start_date = None, tq_end_date = None, tq_transaction_type = None, tq_search = [],
     tq_ordering = [], tq_page = None, tq_page_size = None\<rparr>"

definition foreign_category_shop :: transaction_payload where
  "foreign_category_shop = weekly_shop\<lparr>tp_category := Some (Some 2)\<rparr>"

definition free_shop :: transaction_payload where
  "free_shop = weekly_shop\<lparr>tp_amount := Some 0, tp_description := Some '' a ''\<rparr>"

definition march_budget :: budget where
  "march_budget = \<lparr>bg_id = 1, bg_user = 1, bg_category = 1, bg_amount = 30000, bg_month = 3,
     bg_year = 2025, bg_created_at = 8\<rparr>"

definition april_budget :: budget where
  "april_budget = \<lparr>bg_id = 2, bg_user = 1, bg_category = 1, bg_amount = 30000, bg_month = 4,
     bg_year = 2025, bg_created_at = 9\<rparr>"

definition spring_store :: store where
  "spring_store = \<lparr>categories = [alice_groceries, bob_rent], transactions = [],
     budgets = [march_budget, april_budget]\<rparr>"

definition put_march :: budget_payload where
  "put_march = \<lparr>bp_user = None, bp_category = Some 1, bp_amount = Some 35000,
     bp_month = Some 3, bp_year = Some 2025\<rparr>"

definition patch_month_april :: budget_payload where
  "patch_month_april = \<lparr>bp_user = None, bp_category = None, bp_amount = None,
     bp_month = Some 4, bp_year = None\<rparr>"






definition example_serializers :: serializers where
  "example_serializers = spec_serializers (\<lambda>p. 8 \<le> length p) (\<lambda>e. CHR ''@'' \<in> set e)"

definition alice_registration :: registration where
  "alice_registration = \<lparr>rg_username = ''alice'', rg_email = ''alice@example.org'',
     rg_password = ''correct horse'', rg_first_name = ''Alice'', rg_last_name = ''A''\<rparr>"

definition alice :: user where
  "alice = \<lparr>u_id = 1, u_username = ''alice'', u_email = ''alice@example.org'',
     u_password = ''correct horse'', u_first_name = ''Alice'', u_last_name = ''A'',
     u_is_active = True\<rparr>"

definition no_accounts :: accounts where
  "no_accounts = \<lparr>acc_users = [], acc_tokens = []\<rparr>"

definition alice_logged_in :: accounts where
  "alice_logged_in = \<lparr>acc_users = [alice], acc_tokens = [\<lparr>tk_key = ''k1'', tk_user = 1\<rparr>]\<rparr>"


definition bob_changed_store :: store where
  "bob_changed_store = \<lparr>categories = [bob_rent\<lparr>cat_name := ''Housing''\<rparr>, alice_groceries],
     transactions = [weekly_shop_row\<lparr>tx_category := Some 1\<rparr>, weekly_shop_row\<lparr>tx_id := 2\<rparr>,
                     \<lparr>tx_id = 3, tx_user = 2, tx_category = Some 2, tx_amount = 90000,
                      tx_description = ''May rent'', tx_date = 20240502,
                      tx_transaction_type = EXPENSE, tx_created_at = 11\<rparr>],
     budgets = [alice_budget]\<rparr>"

section \<open>Evaluating the requests on the example data\<close>

lemmas serializer_defs =
  run_validation_def passed_def field_error_def Let_def char_field_def decimal_field_def
  integer_field_def choice_field_def primary_key_related_field_def category_by_pk_def
  strip_def isspace_def next_pk_def

lemma create_weekly_shop:
  "transaction_create 1 weekly_shop 7 two_categories =
     Inr (weekly_shop_row, two_categories\<lparr>transactions := [weekly_shop_row]\<rparr>)"
  by (simp add: transaction_create_def transaction_is_valid_def transaction_serializer_create_def
      transaction_insert_def serializer_defs weekly_shop_def two_categories_def
      weekly_shop_row_def transaction_validate_amount_def validate_description_def)

section \<open>The default transaction type\<close>

text \<open>
  C10. A transaction create whose payload has no \<open>transaction_type\<close> key is never rejected
  for that field, and the row it stores has type \<open>EXPENSE\<close>.
\<close>

theorem transaction_type_defaults_to_expense:
  assumes "tp_transaction_type p = None"
  shows "(\<forall>errs. transaction_create user p now s = Inl (ValidationError errs)
            \<longrightarrow> f_transaction_type \<notin> set errs)
       \<and> (\<forall>row s'. transaction_create user p now s = Inr (row, s')
            \<longrightarrow> tx_transaction_type row = EXPENSE \<and> row \<in> set (transactions s'))"
  using assms
  by (auto simp: transaction_create_def transaction_is_valid_def transaction_serializer_create_def
      transaction_insert_def Let_def run_validation_def passed_def field_error_def
      split: sum.splits if_splits option.splits)

theorem transaction_type_defaults_to_expense_witness:
  "tp_transaction_type weekly_shop = None
   \<and> (\<exists>row s'. transaction_create 1 weekly_shop 7 two_categories = Inr (row, s')
         \<and> tx_transaction_type row = EXPENSE \<and> row \<in> set (transactions s'))"
proof -
  have h: "tp_transaction_type weekly_shop = None" by (simp add: weekly_shop_def)
  from transaction_type_defaults_to_expense [OF h, of 1 7 two_categories] create_weekly_shop h
  show ?thesis by auto
qed

section \<open>Querysets and object lookup\<close>

lemma set_insort_by [simp]: "set (insort_by le x xs) = insert x (set xs)"
  by (induction xs) auto

lemma set_order_by [simp]: "set (order_by f ts rows) = set rows"
  by (induction rows) (auto simp: order_by_def)

lemma find_SomeD: "find P xs = Some x \<Longrightarrow> P x \<and> x \<in> set xs"
  by (induction xs) (auto split: if_splits)


lemma category_filter_subset: "set (category_filter q rows) \<subseteq> set rows"
  unfolding category_filter_def by (rule filter_is_subset)

lemma transaction_filter_subset: "set (transaction_filter cs q rows) \<subseteq> set rows"
  unfolding transaction_filter_def by (rule filter_is_subset)

lemma budget_filter_subset: "set (budget_filter cs q rows) \<subseteq> set rows"
  unfolding budget_filter_def by (rule filter_is_subset)

lemma category_get_objectD:
  assumes "category_get_object user q pk s = Inr c"
  shows "cat_id c = pk \<and> cat_user c = user \<and> c \<in> set (categories s)"
proof -
  from assms have "find (\<lambda>c. cat_id c = pk)
      (category_filter_queryset q (category_get_queryset user s)) = Some c"
    by (simp add: category_get_object_def split: option.splits)
  from find_SomeD [OF this] have pk: "cat_id c = pk"
    and "c \<in> set (category_filter q (category_get_queryset user s))"
    by (simp_all add: category_filter_queryset_def)
  with category_filter_subset have "c \<in> set (category_get_queryset user s)" by blast
  with pk show ?thesis by (simp add: category_get_queryset_def)
qed

lemma transaction_get_objectD:
  assumes "transaction_get_object user q pk s = Inr t"
  shows "tx_id t = pk \<and> tx_user t = user \<and> t \<in> set (transactions s)"
proof -
  from assms have "find (\<lambda>t. tx_id t = pk)
      (transaction_filter_queryset (categories s) q (transaction_get_queryset user s)) = Some t"
    by (simp add: transaction_get_object_def split: option.splits)
  from find_SomeD [OF this] have pk: "tx_id t = pk"
    and "t \<in> set (transaction_filter (categories s) q (transaction_get_queryset user s))"
    by (simp_all add: transaction_filter_queryset_def)
  with transaction_filter_subset have "t \<in> set (transaction_get_queryset user s)" by blast
  with pk show ?thesis by (simp add: transaction_get_queryset_def)
qed

lemma budget_get_objectD:
  assumes "budget_get_object user q pk s = Inr b"
  shows "bg_id b = pk \<and> bg_user b = user \<and> b \<in> set (budgets s)"
proof -
  from assms have "find (\<lambda>b. bg_id b = pk)
      (budget_filter_queryset (categories s) q (budget_get_queryset user s)) = Some b"
    by (simp add: budget_get_object_def split: option.splits)
  from find_SomeD [OF this] have pk: "bg_id b = pk"
    and "b \<in> set (budget_filter (categories s) q (budget_get_queryset user s))"
    by (simp_all add: budget_filter_queryset_def)
  with budget_filter_subset have "b \<in> set (budget_get_queryset user s)" by blast
  with pk show ?thesis by (simp add: budget_get_queryset_def)
qed

lemma destroy_groceries:
  "category_destroy 1 no_category_query 1 groceries_store =
     Inr \<lparr>categories = [bob_rent],
          transactions = [weekly_shop_row, weekly_shop_row\<lparr>tx_id := 2\<rparr>],
          budgets = [bob_budget]\<rparr>"
  by (simp add: category_destroy_def category_get_object_def category_filter_queryset_def
      category_filter_def category_get_queryset_def get_ordering_def order_by_def
      no_category_query_def groceries_store_def alice_groceries_def bob_rent_def
      category_delete_def weekly_shop_row_def alice_budget_def bob_budget_def)

section \<open>Deleting a category\<close>

lemma set_null_ids:
  "map tx_id (map (\<lambda>t. if tx_category t = Some pk then t\<lparr>tx_category := None\<rparr> else t) ts)
     = map tx_id ts"
  by (induction ts) auto

lemma set_null_no_reference:
  "\<forall>t \<in> set (transactions (category_delete pk s)). tx_category t \<noteq> Some pk"
  by (auto simp: category_delete_def)

lemma category_delete_effect:
  "budgets (category_delete pk s) = filter (\<lambda>b. bg_category b \<noteq> pk) (budgets s)
   \<and> transactions (category_delete pk s) =
       map (\<lambda>t. if tx_category t = Some pk then t\<lparr>tx_category := None\<rparr> else t) (transactions s)
   \<and> map tx_id (transactions (category_delete pk s)) = map tx_id (transactions s)
   \<and> (\<forall>t \<in> set (transactions (category_delete pk s)). tx_category t \<noteq> Some pk)
   \<and> (\<forall>b \<in> set (budgets (category_delete pk s)). bg_category b \<noteq> pk)
   \<and> (\<forall>c \<in> set (categories (category_delete pk s)). cat_id c \<noteq> pk)"
proof -
  have 2: "budgets (category_delete pk s) = filter (\<lambda>b. bg_category b \<noteq> pk) (budgets s)"
    by (simp add: category_delete_def)
  have 3: "categories (category_delete pk s) = filter (\<lambda>c. cat_id c \<noteq> pk) (categories s)"
    by (simp add: category_delete_def)
  have 4: "transactions (category_delete pk s) =
       map (\<lambda>t. if tx_category t = Some pk then t\<lparr>tx_category := None\<rparr> else t) (transactions s)"
    by (simp add: category_delete_def)
  have 1: "map tx_id (transactions (category_delete pk s)) = map tx_id (transactions s)"
    unfolding 4 by (rule set_null_ids)
  have 5: "\<forall>b \<in> set (budgets (category_delete pk s)). bg_category b \<noteq> pk"
    unfolding 2 by simp
  have 6: "\<forall>c \<in> set (categories (category_delete pk s)). cat_id c \<noteq> pk"
    unfolding 3 by simp
  from 1 2 4 5 6 set_null_no_reference [of pk s] show ?thesis by blast
qed

text \<open>
  C6. When a category is deleted through the endpoint, the budgets that survive are exactly
  those that did not reference it (every budget of the category is deleted with it), and
  every transaction is retained, in place and with its primary key: the transactions that
  referenced the category have the reference set to null and are otherwise unchanged.
\<close>

theorem category_destroy_cascade:
  assumes "category_destroy user q pk s = Inr s'"
  shows "budgets s' = filter (\<lambda>b. bg_category b \<noteq> pk) (budgets s)
       \<and> transactions s' =
           map (\<lambda>t. if tx_category t = Some pk then t\<lparr>tx_category := None\<rparr> else t) (transactions s)
       \<and> map tx_id (transactions s') = map tx_id (transactions s)
       \<and> (\<forall>t \<in> set (transactions s'). tx_category t \<noteq> Some pk)
       \<and> (\<forall>b \<in> set (budgets s'). bg_category b \<noteq> pk)
       \<and> (\<forall>c \<in> set (categories s'). cat_id c \<noteq> pk)"
proof -
  from assms obtain c where c: "category_get_object user q pk s = Inr c"
    and s': "s' = category_delete (cat_id c) s"
    by (auto simp: category_destroy_def split: sum.splits)
  from category_get_objectD [OF c] have "cat_id c = pk" by blast
  with s' have d: "s' = category_delete pk s" by (simp only:)
  show ?thesis unfolding d by (rule category_delete_effect)
qed

theorem category_destroy_cascade_witness:
  "category_destroy 1 no_category_query 1 groceries_store =
     Inr \<lparr>categories = [bob_rent],
          transactions = [weekly_shop_row, weekly_shop_row\<lparr>tx_id := 2\<rparr>],
          budgets = [bob_budget]\<rparr>
   \<and> budgets \<lparr>categories = [bob_rent],
          transactions = [weekly_shop_row, weekly_shop_row\<lparr>tx_id := 2\<rparr>],
          budgets = [bob_budget]\<rparr> = filter (\<lambda>b. bg_category b \<noteq> 1) (budgets groceries_store)
   \<and> map tx_id (transactions \<lparr>categories = [bob_rent],
          transactions = [weekly_shop_row, weekly_shop_row\<lparr>tx_id := 2\<rparr>],
          budgets = [bob_budget]\<rparr>) = map tx_id (transactions groceries_store)"
  using category_destroy_cascade [OF destroy_groceries] destroy_groceries
  by blast

section \<open>The owner of a row\<close>

lemma category_is_valid_user: "category_is_valid partial p = Inr vd \<Longrightarrow> cd_user vd = None"
  by (auto simp: category_is_valid_def Let_def split: if_splits)

lemma transaction_is_valid_user:
  "transaction_is_valid cs u partial p = Inr vd \<Longrightarrow> td_user vd = None"
  by (auto simp: transaction_is_valid_def Let_def split: if_splits)

lemma validate_returns_data: "validate u inst bs data = Inr d \<Longrightarrow> d = data"
  by (auto simp: validate_def Let_def split: option.splits if_splits)

lemma budget_is_valid_user:
  "budget_is_valid cs bs u cy inst partial p = Inr vd \<Longrightarrow> bd_user vd = None"
  by (auto simp: budget_is_valid_def Let_def split: if_splits dest!: validate_returns_data)











lemmas queryset_defs =
  get_ordering_def order_by_def term_name_def term_desc_def compare_def flip_def
  category_detail_def category_name_def category_by_pk_def






section \<open>Validation of budget years and months\<close>

lemma rejects_simps [simp]:
  "rejects f (Inl e) = (case e of ValidationError errs \<Rightarrow> f \<in> set errs | _ \<Rightarrow> False)"
  "rejects f (Inr v) = False"
  by (simp_all add: rejects_def)

lemma field_error_set: "f \<in> set (field_error g r) \<longleftrightarrow> f = g \<and> r = Fail"
  by (cases r) (auto simp: field_error_def)

lemma validate_error: "validate u inst bs d = Inl e \<Longrightarrow> e = ValidationError [non_field_errors]"
  by (auto simp: validate_def Let_def split: option.splits if_splits)

lemma budget_insert_error: "budget_insert vd now s = Inl e \<Longrightarrow> e = IntegrityError"
  by (auto simp: budget_insert_def Let_def split: option.splits if_splits)

lemma budget_serializer_update_error:
  "budget_serializer_update inst vd s = Inl e \<Longrightarrow> e = IntegrityError"
  by (auto simp: budget_serializer_update_def Let_def split: if_splits)

lemma rejects_budget_create:
  "rejects f (budget_create user cy p now s)
     = rejects f (budget_is_valid (categories s) (budgets s) user cy None False p)"
proof (cases "budget_is_valid (categories s) (budgets s) user cy None False p")
  case (Inl e) then show ?thesis by (simp add: budget_create_def)
next
  case (Inr vd)
  show ?thesis
  proof (cases "budget_serializer_create user vd now s")
    case (Inl e)
    then have "e = IntegrityError"
      by (auto simp: budget_serializer_create_def dest: budget_insert_error)
    with Inl Inr show ?thesis by (simp add: budget_create_def)
  next
    case (Inr r) with \<open>budget_is_valid _ _ _ _ _ _ _ = Inr vd\<close> show ?thesis
      by (simp add: budget_create_def)
  qed
qed

lemma rejects_budget_update:
  assumes "budget_get_object user q pk s = Inr inst"
  shows "rejects f (budget_update user cy q pk partial p s)
     = rejects f (budget_is_valid (categories s) (budgets s) user cy (Some inst) partial p)"
proof (cases "budget_is_valid (categories s) (budgets s) user cy (Some inst) partial p")
  case (Inl e) with assms show ?thesis by (simp add: budget_update_def)
next
  case (Inr vd)
  show ?thesis
  proof (cases "budget_serializer_update inst vd s")
    case (Inl e)
    then have "e = IntegrityError" by (rule budget_serializer_update_error)
    with Inl Inr assms show ?thesis by (simp add: budget_update_def)
  next
    case (Inr r) with \<open>budget_is_valid _ _ _ _ _ _ _ = Inr vd\<close> assms show ?thesis
      by (simp add: budget_update_def)
  qed
qed

lemma year_field_outcome:
  "run_validation partial True (\<lambda>d. Option.bind (integer_field 2000 2100 d) (validate_year cy))
     (Some y) = (if in_year_window cy y then Pass y else Fail)"
  by (auto simp: run_validation_def integer_field_def validate_year_def in_year_window_def)

lemma month_field_outcome:
  "run_validation partial True (\<lambda>d. Option.bind (integer_field 1 12 d) validate_month)
     (Some m) = (if 1 \<le> m \<and> m \<le> 12 then Pass m else Fail)"
  by (auto simp: run_validation_def integer_field_def validate_month_def)

lemma rejects_validate: "rejects f (validate u inst bs d) \<longleftrightarrow>
    f = non_field_errors \<and> validate u inst bs d = Inl (ValidationError [non_field_errors])"
proof (cases "validate u inst bs d")
  case (Inl e)
  from validate_error [OF Inl] Inl show ?thesis by auto
next
  case (Inr v) then show ?thesis by simp
qed

lemma budget_is_valid_rejects_year:
  assumes "bp_year p = Some y"
  shows "rejects f_year (budget_is_valid cs bs u cy inst partial p) \<longleftrightarrow> \<not> in_year_window cy y"
  using assms
  by (simp add: budget_is_valid_def Let_def year_field_outcome field_error_set rejects_validate
      field_error_def)

lemma budget_is_valid_rejects_month:
  assumes "bp_month p = Some m"
  shows "rejects f_month (budget_is_valid cs bs u cy inst partial p) \<longleftrightarrow> \<not> (1 \<le> m \<and> m \<le> 12)"
  using assms
  by (simp add: budget_is_valid_def Let_def month_field_outcome field_error_set rejects_validate
      field_error_def)

lemma create_budget_2029:
  "budget_create 1 2024 (may_budget 5 2029) 7 two_categories =
     Inr (\<lparr>bg_id = 1, bg_user = 1, bg_category = 1, bg_amount = 30000, bg_month = 5,
           bg_year = 2029, bg_created_at = 7\<rparr>,
          two_categories\<lparr>budgets := [\<lparr>bg_id = 1, bg_user = 1, bg_category = 1,
             bg_amount = 30000, bg_month = 5, bg_year = 2029, bg_created_at = 7\<rparr>]\<rparr>)"
  by (simp add: budget_create_def budget_is_valid_def validate_def budget_serializer_create_def
      budget_insert_def budget_unique_violation_def budget_category_field_def
      validate_category_def budget_validate_amount_def validate_month_def validate_year_def
      serializer_defs may_budget_def two_categories_def alice_groceries_def bob_rent_def)

text \<open>
  C5, as amended. A budget create or update (once the row is found) rejects the years 1999
  and 2106 and the months 0 and 13 with a validation error on that field, whatever the
  current year. A year is accepted exactly when it lies both within five years of the current
  year, read when the request is validated, and within the model's bounds 2000 to 2100.
\<close>

theorem budget_year_and_month_bounds:
  "(bp_year p = Some y \<longrightarrow>
      (rejects f_year (budget_create user cy p now s)
         \<longleftrightarrow> \<not> (cy - 5 \<le> y \<and> y \<le> cy + 5 \<and> 2000 \<le> y \<and> y \<le> 2100))
    \<and> (\<forall>inst. budget_get_object user q pk s = Inr inst \<longrightarrow>
         (rejects f_year (budget_update user cy q pk partial p s)
            \<longleftrightarrow> \<not> (cy - 5 \<le> y \<and> y \<le> cy + 5 \<and> 2000 \<le> y \<and> y \<le> 2100))))
   \<and> (bp_year p = Some y \<and> (y = 1999 \<or> y = 2106) \<longrightarrow>
        rejects f_year (budget_create user cy p now s)
      \<and> (\<forall>inst. budget_get_object user q pk s = Inr inst \<longrightarrow>
           rejects f_year (budget_update user cy q pk partial p s)))
   \<and> (bp_month p = Some m \<and> (m = 0 \<or> m = 13) \<longrightarrow>
        rejects f_month (budget_create user cy p now s)
      \<and> (\<forall>inst. budget_get_object user q pk s = Inr inst \<longrightarrow>
           rejects f_month (budget_update user cy q pk partial p s)))"
proof -
  have w: "in_year_window cy y \<longleftrightarrow> cy - 5 \<le> y \<and> y \<le> cy + 5 \<and> 2000 \<le> y \<and> y \<le> 2100"
    by (auto simp: in_year_window_def)
  have yc: "bp_year p = Some y \<Longrightarrow>
      rejects f_year (budget_create user cy p now s) \<longleftrightarrow> \<not> in_year_window cy y"
    by (simp only: rejects_budget_create budget_is_valid_rejects_year)
  have yu: "\<And>inst. bp_year p = Some y \<Longrightarrow> budget_get_object user q pk s = Inr inst \<Longrightarrow>
      rejects f_year (budget_update user cy q pk partial p s) \<longleftrightarrow> \<not> in_year_window cy y"
    by (simp only: rejects_budget_update budget_is_valid_rejects_year)
  have mc: "bp_month p = Some m \<Longrightarrow>
      rejects f_month (budget_create user cy p now s) \<longleftrightarrow> \<not> (1 \<le> m \<and> m \<le> 12)"
    by (simp only: rejects_budget_create budget_is_valid_rejects_month)
  have mu: "\<And>inst. bp_month p = Some m \<Longrightarrow> budget_get_object user q pk s = Inr inst \<Longrightarrow>
      rejects f_month (budget_update user cy q pk partial p s) \<longleftrightarrow> \<not> (1 \<le> m \<and> m \<le> 12)"
    by (simp only: rejects_budget_update budget_is_valid_rejects_month)
  have 1: "bp_year p = Some y \<longrightarrow>
      (rejects f_year (budget_create user cy p now s)
         \<longleftrightarrow> \<not> (cy - 5 \<le> y \<and> y \<le> cy + 5 \<and> 2000 \<le> y \<and> y \<le> 2100))
    \<and> (\<forall>inst. budget_get_object user q pk s = Inr inst \<longrightarrow>
         (rejects f_year (budget_update user cy q pk partial p s)
            \<longleftrightarrow> \<not> (cy - 5 \<le> y \<and> y \<le> cy + 5 \<and> 2000 \<le> y \<and> y \<le> 2100)))"
    using yc yu w by blast
  have 2: "bp_year p = Some y \<and> (y = 1999 \<or> y = 2106) \<longrightarrow>
        rejects f_year (budget_create user cy p now s)
      \<and> (\<forall>inst. budget_get_object user q pk s = Inr inst \<longrightarrow>
           rejects f_year (budget_update user cy q pk partial p s))"
  proof
    assume a: "bp_year p = Some y \<and> (y = 1999 \<or> y = 2106)"
    then have "\<not> in_year_window cy y" by (auto simp: in_year_window_def)
    with a yc yu show "rejects f_year (budget_create user cy p now s)
      \<and> (\<forall>inst. budget_get_object user q pk s = Inr inst \<longrightarrow>
           rejects f_year (budget_update user cy q pk partial p s))" by blast
  qed
  have 3: "bp_month p = Some m \<and> (m = 0 \<or> m = 13) \<longrightarrow>
        rejects f_month (budget_create user cy p now s)
      \<and> (\<forall>inst. budget_get_object user q pk s = Inr inst \<longrightarrow>
           rejects f_month (budget_update user cy q pk partial p s))"
  proof
    assume a: "bp_month p = Some m \<and> (m = 0 \<or> m = 13)"
    then have "\<not> (1 \<le> m \<and> m \<le> 12)" by auto
    with a mc mu show "rejects f_month (budget_create user cy p now s)
      \<and> (\<forall>inst. budget_get_object user q pk s = Inr inst \<longrightarrow>
           rejects f_month (budget_update user cy q pk partial p s))" by blast
  qed
  from 1 2 3 show ?thesis by (intro conjI)
qed

theorem budget_year_and_month_bounds_witness:
  "bp_year (may_budget 5 2029) = Some 2029
   \<and> (2024::int) - 5 \<le> 2029 \<and> (2029::int) \<le> 2024 + 5 \<and> (2000::int) \<le> 2029 \<and> (2029::int) \<le> 2100
   \<and> \<not> rejects f_year (budget_create 1 2024 (may_budget 5 2029) 7 two_categories)
   \<and> (\<exists>row s'. budget_create 1 2024 (may_budget 5 2029) 7 two_categories = Inr (row, s')
         \<and> bg_year row = 2029)
   \<and> bp_year (may_budget 5 1999) = Some 1999
   \<and> rejects f_year (budget_create 1 2024 (may_budget 5 1999) 7 two_categories)
   \<and> bp_month (may_budget 13 2024) = Some 13
   \<and> rejects f_month (budget_create 1 2024 (may_budget 13 2024) 7 two_categories)"
proof -
  have a: "bp_year (may_budget 5 2029) = Some 2029" "bp_year (may_budget 5 1999) = Some 1999"
    "bp_month (may_budget 13 2024) = Some 13"
    by (simp_all add: may_budget_def)
  from budget_year_and_month_bounds [where p = "may_budget 5 2029" and y = 2029 and cy = 2024
      and user = 1 and now = 7 and s = two_categories] a(1)
  have 1: "\<not> rejects f_year (budget_create 1 2024 (may_budget 5 2029) 7 two_categories)"
    by simp
  from budget_year_and_month_bounds [where p = "may_budget 5 1999" and y = 1999 and cy = 2024
      and user = 1 and now = 7 and s = two_categories] a(2)
  have 2: "rejects f_year (budget_create 1 2024 (may_budget 5 1999) 7 two_categories)"
    by simp
  from budget_year_and_month_bounds [where p = "may_budget 13 2024" and m = 13 and cy = 2024
      and user = 1 and now = 7 and s = two_categories] a(3)
  have 3: "rejects f_month (budget_create 1 2024 (may_budget 13 2024) 7 two_categories)"
    by simp
  from 1 2 3 a create_budget_2029 show ?thesis by simp
qed

text \<open>
  Without the model's bounds the statement fails: in 2097 the year 2101 is within five years of the current year, and
  the create is rejected on \<open>year\<close>, by the model's \<open>MaxValueValidator(2100)\<close>.
\<close>

theorem budget_year_window_counterexample:
  "(2097::int) - 5 \<le> 2101 \<and> (2101::int) \<le> 2097 + 5
   \<and> budget_create 1 2097 (may_budget 5 2101) 7 two_categories = Inl (ValidationError [f_year])"
  by (simp add: budget_create_def budget_is_valid_def budget_category_field_def
      validate_category_def budget_validate_amount_def validate_month_def validate_year_def
      serializer_defs may_budget_def two_categories_def alice_groceries_def bob_rent_def)

section \<open>Category ownership and transaction validation\<close>

lemma transaction_insert_error: "transaction_insert vd now s = Inl e \<Longrightarrow> e = IntegrityError"
  by (auto simp: transaction_insert_def Let_def split: option.splits)

lemma rejects_transaction_create:
  "rejects f (transaction_create user p now s)
     = rejects f (transaction_is_valid (categories s) user False p)"
proof (cases "transaction_is_valid (categories s) user False p")
  case (Inl e) then show ?thesis by (simp add: transaction_create_def)
next
  case (Inr vd)
  show ?thesis
  proof (cases "transaction_serializer_create user vd now s")
    case (Inl e)
    then have "e = IntegrityError"
      by (auto simp: transaction_serializer_create_def dest: transaction_insert_error)
    with Inl Inr show ?thesis by (simp add: transaction_create_def)
  next
    case (Inr r) with \<open>transaction_is_valid _ _ _ _ = Inr vd\<close> show ?thesis
      by (simp add: transaction_create_def)
  qed
qed

lemma rejects_transaction_update:
  assumes "transaction_get_object user q pk s = Inr inst"
  shows "rejects f (transaction_update user q pk partial p s)
     = rejects f (transaction_is_valid (categories s) user partial p)"
proof (cases "transaction_is_valid (categories s) user partial p")
  case (Inl e) with assms show ?thesis by (simp add: transaction_update_def)
next
  case (Inr vd)
  with assms show ?thesis
    by (simp add: transaction_update_def transaction_serializer_update_def Let_def)
qed

lemma foreign_category_lookup:
  assumes "\<forall>c \<in> set cs. cat_id c = k \<longrightarrow> cat_user c \<noteq> user"
  shows "Option.bind (primary_key_related_field cs k) (\<lambda>c. validate_category user (Some c)) = None"
proof (cases "primary_key_related_field cs k")
  case None then show ?thesis by simp
next
  case (Some c)
  then have "cat_id c = k \<and> c \<in> set cs"
    by (auto simp: primary_key_related_field_def category_by_pk_def dest: find_SomeD)
  with assms have "cat_user c \<noteq> user" by blast
  with Some show ?thesis by (simp add: validate_category_def)
qed

lemma transaction_category_outcome_foreign:
  assumes "\<forall>c \<in> set cs. cat_id c = k \<longrightarrow> cat_user c \<noteq> user"
  shows "run_validation partial False
           (\<lambda>d. Option.bind (transaction_category_field cs d) (validate_category user))
           (Some (Some k)) = Fail"
proof -
  have "Option.bind (transaction_category_field cs (Some k)) (validate_category user)
      = Option.bind (primary_key_related_field cs k) (\<lambda>c. validate_category user (Some c))"
    by (cases "primary_key_related_field cs k") (simp_all add: transaction_category_field_def)
  with foreign_category_lookup [OF assms] show ?thesis by (simp add: run_validation_def)
qed

lemma budget_category_outcome_foreign:
  assumes "\<forall>c \<in> set cs. cat_id c = k \<longrightarrow> cat_user c \<noteq> user"
  shows "run_validation partial True (budget_category_field cs user) (Some k) = Fail"
  using foreign_category_lookup [OF assms]
  by (simp add: run_validation_def budget_category_field_def)

lemma transaction_category_outcome_null:
  "run_validation partial False
     (\<lambda>d. Option.bind (transaction_category_field cs d) (validate_category user))
     (Some None) = Pass None"
  by (simp add: run_validation_def transaction_category_field_def validate_category_def)

lemma transaction_category_outcome_absent:
  "run_validation partial False check None = Skip"
  by (simp add: run_validation_def)

lemma amount_outcome_nonpositive:
  "a \<le> 0 \<Longrightarrow> run_validation partial True
     (\<lambda>d. Option.bind (decimal_field d) transaction_validate_amount) (Some a) = Fail"
  by (simp add: run_validation_def decimal_field_def)

lemma length_strip_le: "length (strip s) \<le> length s"
proof -
  have "length (strip s) = length (dropWhile isspace (rev (dropWhile isspace s)))"
    by (simp add: strip_def)
  also have "\<dots> \<le> length (rev (dropWhile isspace s))" by (rule length_dropWhile_le)
  also have "\<dots> \<le> length s" by (simp add: length_dropWhile_le)
  finally show ?thesis .
qed

lemma description_outcome_short:
  assumes "length (strip d) < 2"
  shows "run_validation partial True
     (\<lambda>d. Option.bind (char_field 255 d) validate_description) (Some d) = Fail"
proof -
  from length_strip_le [of "strip d"] assms have "length (strip (strip d)) < 2" by simp
  then have "Option.bind (char_field 255 d) validate_description = None"
    by (simp add: char_field_def validate_description_def Let_def)
  then show ?thesis by (simp add: run_validation_def)
qed

lemma transaction_rejects_foreign_category:
  assumes "tp_category p = Some (Some k)"
    and "\<forall>c \<in> set cs. cat_id c = k \<longrightarrow> cat_user c \<noteq> user"
  shows "rejects f_category (transaction_is_valid cs user partial p)"
  using assms(1) transaction_category_outcome_foreign [OF assms(2)]
  by (simp add: transaction_is_valid_def Let_def field_error_def)

lemma budget_rejects_foreign_category:
  assumes "bp_category p = Some k"
    and "\<forall>c \<in> set cs. cat_id c = k \<longrightarrow> cat_user c \<noteq> user"
  shows "rejects f_category (budget_is_valid cs bs user cy inst partial p)"
  using assms(1) budget_category_outcome_foreign [OF assms(2)]
  by (simp add: budget_is_valid_def Let_def field_error_def)

lemma transaction_rejects_amount:
  assumes "tp_amount p = Some a" and "a \<le> 0"
  shows "rejects f_amount (transaction_is_valid cs user partial p)"
  using assms(1) amount_outcome_nonpositive [OF assms(2)]
  by (simp add: transaction_is_valid_def Let_def field_error_def)

lemma transaction_rejects_description:
  assumes "tp_description p = Some d" and "length (strip d) < 2"
  shows "rejects f_description (transaction_is_valid cs user partial p)"
  using assms(1) description_outcome_short [OF assms(2)]
  by (simp add: transaction_is_valid_def Let_def field_error_def)

lemma transaction_accepts_no_category:
  assumes "tp_category p = None \<or> tp_category p = Some None"
  shows "\<not> rejects f_category (transaction_is_valid cs user partial p)"
  using assms
  by (auto simp: transaction_is_valid_def Let_def field_error_set
      transaction_category_outcome_null transaction_category_outcome_absent)

lemma transaction_valid_category_value:
  assumes "transaction_is_valid cs user partial p = Inr vd"
  shows "(tp_category p = None \<longrightarrow> td_category vd = None)
       \<and> (tp_category p = Some None \<longrightarrow> td_category vd = Some None)"
  using assms
  by (auto simp: transaction_is_valid_def Let_def transaction_category_outcome_null
      transaction_category_outcome_absent passed_def split: if_splits)

lemma transaction_create_null_category:
  assumes "tp_category p = None \<or> tp_category p = Some None"
    and "transaction_create user p now s = Inr (row, s')"
  shows "tx_category row = None"
proof -
  from assms(2) obtain vd where v: "transaction_is_valid (categories s) user False p = Inr vd"
    and i: "transaction_insert (vd\<lparr>td_user := Some user\<rparr>) now s = Inr (row, s')"
    by (auto simp: transaction_create_def transaction_serializer_create_def split: sum.splits)
  from transaction_valid_category_value [OF v] assms(1)
  have "td_category vd = None \<or> td_category vd = Some None" by auto
  with i show ?thesis
    by (auto simp: transaction_insert_def Let_def split: option.splits)
qed

lemma transaction_update_category:
  assumes "transaction_update user q pk partial p s = Inr (row, s')"
  shows "\<exists>inst. transaction_get_object user q pk s = Inr inst
           \<and> (tp_category p = None \<longrightarrow> tx_category row = tx_category inst)
           \<and> (tp_category p = Some None \<longrightarrow> tx_category row = None)"
proof -
  from assms obtain inst vd where g: "transaction_get_object user q pk s = Inr inst"
    and v: "transaction_is_valid (categories s) user partial p = Inr vd"
    and w: "transaction_serializer_update inst vd s = Inr (row, s')"
    by (auto simp: transaction_update_def split: sum.splits)
  from w have r: "tx_category row = (case td_category vd of None \<Rightarrow> tx_category inst
                            | Some c \<Rightarrow> map_option cat_id c)"
    by (auto simp: transaction_serializer_update_def Let_def)
  from transaction_valid_category_value [OF v] r g show ?thesis by auto
qed

lemma transaction_get_object_error:
  "transaction_get_object user q pk s = Inl e \<Longrightarrow> e = Http404"
  by (auto simp: transaction_get_object_def split: option.splits)

lemma put_weekly_shop:
  "transaction_update 1 no_transaction_query 1 False weekly_shop groceries_store =
     Inr (weekly_shop_row\<lparr>tx_category := Some 1\<rparr>, groceries_store)"
proof -
  have g: "transaction_get_object 1 no_transaction_query 1 groceries_store
      = Inr (weekly_shop_row\<lparr>tx_category := Some 1\<rparr>)"
    by (simp add: transaction_get_object_def transaction_filter_queryset_def
        transaction_filter_def transaction_get_queryset_def no_transaction_query_def
        groceries_store_def weekly_shop_row_def queryset_defs transaction_cmp_def)
  have v: "transaction_is_valid (categories groceries_store) 1 False weekly_shop =
      Inr \<lparr>td_user = None, td_category = None, td_amount = Some 4550,
           td_description = Some ''Weekly shop'', td_date = Some 20240501,
           td_transaction_type = None\<rparr>"
    by (simp add: transaction_is_valid_def serializer_defs weekly_shop_def
        transaction_validate_amount_def validate_description_def)
  show ?thesis
    unfolding transaction_update_def g v
    by (simp add: transaction_serializer_update_def Let_def groceries_store_def
        weekly_shop_row_def)
qed


text \<open>
  C4, as amended. A transaction or budget create, and an update of a row that is found, is
  rejected with a validation error on \<open>category\<close> when the payload names a category that
  the caller does not own. A transaction create whose payload has no category, or a null
  one, is not rejected for it and stores a null category; a transaction update with a null
  category stores null, and one whose payload has no category is not rejected for it and
  leaves the category of the row as it was. An amount of zero or less and a description
  shorter than two characters once trimmed are rejected with a validation error on that
  field.
\<close>

theorem category_ownership_and_transaction_validation:
  "(tp_category tp = Some (Some k)
      \<and> (\<forall>c \<in> set (categories s). cat_id c = k \<longrightarrow> cat_user c \<noteq> user) \<longrightarrow>
        rejects f_category (transaction_create user tp now s)
      \<and> (\<forall>inst. transaction_get_object user tq pk s = Inr inst \<longrightarrow>
           rejects f_category (transaction_update user tq pk partial tp s)))
   \<and> (bp_category bp = Some k
      \<and> (\<forall>c \<in> set (categories s). cat_id c = k \<longrightarrow> cat_user c \<noteq> user) \<longrightarrow>
        rejects f_category (budget_create user cy bp now s)
      \<and> (\<forall>inst. budget_get_object user bq pk s = Inr inst \<longrightarrow>
           rejects f_category (budget_update user cy bq pk partial bp s)))
   \<and> (tp_category tp = None \<or> tp_category tp = Some None \<longrightarrow>
        \<not> rejects f_category (transaction_create user tp now s)
      \<and> \<not> rejects f_category (transaction_update user tq pk partial tp s)
      \<and> (\<forall>row s'. transaction_create user tp now s = Inr (row, s') \<longrightarrow> tx_category row = None))
   \<and> (\<forall>row s'. transaction_update user tq pk partial tp s = Inr (row, s') \<longrightarrow>
        (\<exists>inst. transaction_get_object user tq pk s = Inr inst
           \<and> (tp_category tp = None \<longrightarrow> tx_category row = tx_category inst)
           \<and> (tp_category tp = Some None \<longrightarrow> tx_category row = None)))
   \<and> (tp_amount tp = Some a \<and> a \<le> 0 \<longrightarrow>
        rejects f_amount (transaction_create user tp now s)
      \<and> (\<forall>inst. transaction_get_object user tq pk s = Inr inst \<longrightarrow>
           rejects f_amount (transaction_update user tq pk partial tp s)))
   \<and> (tp_description tp = Some d \<and> length (strip d) < 2 \<longrightarrow>
        rejects f_description (transaction_create user tp now s)
      \<and> (\<forall>inst. transaction_get_object user tq pk s = Inr inst \<longrightarrow>
           rejects f_description (transaction_update user tq pk partial tp s)))"
proof -
  have 1: "tp_category tp = Some (Some k)
      \<and> (\<forall>c \<in> set (categories s). cat_id c = k \<longrightarrow> cat_user c \<noteq> user) \<longrightarrow>
        rejects f_category (transaction_create user tp now s)
      \<and> (\<forall>inst. transaction_get_object user tq pk s = Inr inst \<longrightarrow>
           rejects f_category (transaction_update user tq pk partial tp s))"
    by (auto simp: rejects_transaction_create rejects_transaction_update
        intro: transaction_rejects_foreign_category)
  have 2: "bp_category bp = Some k
      \<and> (\<forall>c \<in> set (categories s). cat_id c = k \<longrightarrow> cat_user c \<noteq> user) \<longrightarrow>
        rejects f_category (budget_create user cy bp now s)
      \<and> (\<forall>inst. budget_get_object user bq pk s = Inr inst \<longrightarrow>
           rejects f_category (budget_update user cy bq pk partial bp s))"
    by (auto simp: rejects_budget_create rejects_budget_update
        intro: budget_rejects_foreign_category)
  have u: "\<not> rejects f_category (transaction_update user tq pk partial tp s)"
    if "tp_category tp = None \<or> tp_category tp = Some None"
  proof (cases "transaction_get_object user tq pk s")
    case (Inl e)
    from transaction_get_object_error [OF Inl] Inl show ?thesis
      by (simp add: transaction_update_def)
  next
    case (Inr inst)
    with that show ?thesis
      by (simp add: rejects_transaction_update transaction_accepts_no_category)
  qed
  have 3: "tp_category tp = None \<or> tp_category tp = Some None \<longrightarrow>
        \<not> rejects f_category (transaction_create user tp now s)
      \<and> \<not> rejects f_category (transaction_update user tq pk partial tp s)
      \<and> (\<forall>row s'. transaction_create user tp now s = Inr (row, s') \<longrightarrow> tx_category row = None)"
    using u transaction_create_null_category
    by (auto simp: rejects_transaction_create transaction_accepts_no_category)
  have 4: "\<forall>row s'. transaction_update user tq pk partial tp s = Inr (row, s') \<longrightarrow>
        (\<exists>inst. transaction_get_object user tq pk s = Inr inst
           \<and> (tp_category tp = None \<longrightarrow> tx_category row = tx_category inst)
           \<and> (tp_category tp = Some None \<longrightarrow> tx_category row = None))"
    using transaction_update_category by blast
  have 5: "tp_amount tp = Some a \<and> a \<le> 0 \<longrightarrow>
        rejects f_amount (transaction_create user tp now s)
      \<and> (\<forall>inst. transaction_get_object user tq pk s = Inr inst \<longrightarrow>
           rejects f_amount (transaction_update user tq pk partial tp s))"
    by (auto simp: rejects_transaction_create rejects_transaction_update
        intro: transaction_rejects_amount)
  have 6: "tp_description tp = Some d \<and> length (strip d) < 2 \<longrightarrow>
        rejects f_description (transaction_create user tp now s)
      \<and> (\<forall>inst. transaction_get_object user tq pk s = Inr inst \<longrightarrow>
           rejects f_description (transaction_update user tq pk partial tp s))"
    by (auto simp: rejects_transaction_create rejects_transaction_update
        intro: transaction_rejects_description)
  from 1 2 3 4 5 6 show ?thesis by (intro conjI)
qed


theorem category_ownership_and_transaction_validation_witness:
  "tp_category foreign_category_shop = Some (Some 2)
   \<and> map (\<lambda>c. (cat_id c, cat_user c)) (categories two_categories) = [(1, 1), (2, 2)]
   \<and> rejects f_category (transaction_create 1 foreign_category_shop 7 two_categories)
   \<and> bp_category (may_budget 5 2024) = Some 1
   \<and> rejects f_category (budget_create 2 2024 (may_budget 5 2024) 7 two_categories)
   \<and> tp_category weekly_shop = None
   \<and> (\<exists>row s'. transaction_create 1 weekly_shop 7 two_categories = Inr (row, s')
         \<and> tx_category row = None)
   \<and> tp_amount free_shop = Some 0 \<and> (0::int) \<le> 0
   \<and> rejects f_amount (transaction_create 1 free_shop 7 two_categories)
   \<and> tp_description free_shop = Some '' a '' \<and> length (strip '' a '') < 2
   \<and> rejects f_description (transaction_create 1 free_shop 7 two_categories)"
proof -
  have h1: "tp_category foreign_category_shop = Some (Some 2)"
    by (simp add: foreign_category_shop_def)
  have h2: "\<forall>c \<in> set (categories two_categories). cat_id c = 2 \<longrightarrow> cat_user c \<noteq> 1"
    by (simp add: two_categories_def alice_groceries_def bob_rent_def)
  have h3: "bp_category (may_budget 5 2024) = Some 1" by (simp add: may_budget_def)
  have h4: "\<forall>c \<in> set (categories two_categories). cat_id c = 1 \<longrightarrow> cat_user c \<noteq> 2"
    by (simp add: two_categories_def alice_groceries_def bob_rent_def)
  have h5: "tp_category weekly_shop = None" by (simp add: weekly_shop_def)
  have h6: "tp_amount free_shop = Some 0" "tp_description free_shop = Some '' a ''"
    by (simp_all add: free_shop_def)
  have h7: "length (strip '' a '') < 2" by (simp add: strip_def isspace_def)
  from category_ownership_and_transaction_validation [where tp = foreign_category_shop
      and k = 2 and s = two_categories and user = 1 and now = 7] h1 h2
  have 1: "rejects f_category (transaction_create 1 foreign_category_shop 7 two_categories)"
    by blast
  from category_ownership_and_transaction_validation [where bp = "may_budget 5 2024"
      and k = 1 and s = two_categories and user = 2 and now = 7 and cy = 2024] h3 h4
  have 2: "rejects f_category (budget_create 2 2024 (may_budget 5 2024) 7 two_categories)"
    by blast
  from category_ownership_and_transaction_validation [where tp = weekly_shop
      and s = two_categories and user = 1 and now = 7] h5 create_weekly_shop
  have 3: "\<exists>row s'. transaction_create 1 weekly_shop 7 two_categories = Inr (row, s')
         \<and> tx_category row = None"
    by blast
  from category_ownership_and_transaction_validation [where tp = free_shop and a = 0
      and d = "'' a ''" and s = two_categories and user = 1 and now = 7] h6 h7
  have 4: "rejects f_amount (transaction_create 1 free_shop 7 two_categories)"
    and 5: "rejects f_description (transaction_create 1 free_shop 7 two_categories)"
    by simp_all
  have h8: "map (\<lambda>c. (cat_id c, cat_user c)) (categories two_categories) = [(1, 1), (2, 2)]"
    by (simp add: two_categories_def alice_groceries_def bob_rent_def)
  from h1 h3 h5 h6 h7 h8 1 2 3 4 5 show ?thesis by simp
qed

text \<open>
  The statement that an update without a category stores a null category fails: a PUT of
  the weekly shop, sent without a category key to a transaction filed under Groceries,
  succeeds and the row keeps its category.
\<close>

theorem update_without_category_counterexample:
  "tp_category weekly_shop = None
   \<and> transaction_update 1 no_transaction_query 1 False weekly_shop groceries_store
       = Inr (weekly_shop_row\<lparr>tx_category := Some 1\<rparr>, groceries_store)
   \<and> tx_category (weekly_shop_row\<lparr>tx_category := Some 1\<rparr>) \<noteq> None"
  using put_weekly_shop by (simp add: weekly_shop_def)

section \<open>The uniqueness check of budgets\<close>

lemma get_march_budget:
  "budget_get_object 1 no_budget_query 1 spring_store = Inr march_budget"
  by (simp add: budget_get_object_def budget_filter_queryset_def budget_filter_def
      budget_get_queryset_def no_budget_query_def spring_store_def march_budget_def
      april_budget_def queryset_defs budget_cmp_def)

lemma duplicate_create_rejected:
  "budget_create 1 2025 (may_budget 3 2025) 10 spring_store
     = Inl (ValidationError [non_field_errors])"
  by (simp add: budget_create_def budget_is_valid_def validate_def budget_category_field_def
      validate_category_def budget_validate_amount_def validate_month_def validate_year_def
      serializer_defs may_budget_def spring_store_def alice_groceries_def bob_rent_def
      march_budget_def april_budget_def)

lemma put_march_accepted:
  "budget_update 1 2025 no_budget_query 1 False put_march spring_store =
     Inr (march_budget\<lparr>bg_amount := 35000\<rparr>,
          spring_store\<lparr>budgets := [march_budget\<lparr>bg_amount := 35000\<rparr>, april_budget]\<rparr>)"
  unfolding budget_update_def get_march_budget
  by (simp add: budget_is_valid_def validate_def budget_category_field_def
      validate_category_def budget_validate_amount_def validate_month_def validate_year_def
      budget_serializer_update_def budget_unique_violation_def
      serializer_defs put_march_def spring_store_def alice_groceries_def bob_rent_def
      march_budget_def april_budget_def)

lemma patch_month_integrity_error:
  "budget_update 1 2025 no_budget_query 1 True patch_month_april spring_store
     = Inl IntegrityError"
  unfolding budget_update_def get_march_budget
  by (simp add: budget_is_valid_def validate_def validate_month_def
      budget_serializer_update_def budget_unique_violation_def
      serializer_defs patch_month_april_def spring_store_def
      march_budget_def april_budget_def)

text \<open>
  C2. A second budget for the same user, category, month and year is refused on create with
  a non-field validation error, and a PUT that keeps the row's own category, month and year
  passes the check, which leaves the row itself out. A PATCH that sends only the month does
  not reach the check: \<open>validate\<close> reads the year and the category from the request data,
  finds them absent and returns the data unchecked, so moving the March budget onto the
  month of the existing April budget ends in the database's \<open>IntegrityError\<close>, not in a
  validation error.
\<close>

theorem budget_patch_month_skips_uniqueness_check:
  "budget_create 1 2025 (may_budget 3 2025) 10 spring_store
     = Inl (ValidationError [non_field_errors])
   \<and> budget_update 1 2025 no_budget_query 1 False put_march spring_store =
       Inr (march_budget\<lparr>bg_amount := 35000\<rparr>,
            spring_store\<lparr>budgets := [march_budget\<lparr>bg_amount := 35000\<rparr>, april_budget]\<rparr>)
   \<and> validate 1 (Some march_budget) (budgets spring_store)
        \<lparr>bd_user = None, bd_category = None, bd_amount = None, bd_month = Some 4,
         bd_year = None\<rparr>
       = Inr \<lparr>bd_user = None, bd_category = None, bd_amount = None, bd_month = Some 4,
         bd_year = None\<rparr>
   \<and> budget_update 1 2025 no_budget_query 1 True patch_month_april spring_store
       = Inl IntegrityError"
  using duplicate_create_rejected put_march_accepted patch_month_integrity_error
  by (simp add: validate_def)

section \<open>The default order of the budget list\<close>




section \<open>The token table\<close>















lemmas accounts_defs =
  registration_post_def login_post_def logout_post_def password_change_post_def
  token_get_def token_create_def token_get_or_create_def token_delete_def
  example_serializers_def spec_serializers_def spec_registration_is_valid_def
  spec_registration_save_def spec_login_is_valid_def spec_password_change_is_valid_def
  spec_password_change_save_def Let_def next_pk_def

lemma register_alice:
  "registration_post example_serializers alice_registration ''k1'' no_accounts
     = (Success (Some ''k1''), alice_logged_in)"
  by (simp add: accounts_defs alice_registration_def no_accounts_def alice_logged_in_def
      alice_def)

lemma login_alice:
  "login_post example_serializers ''alice'' ''correct horse'' ''k2'' alice_logged_in
     = (Success (Some ''k1''), alice_logged_in)"
  by (simp add: accounts_defs alice_logged_in_def alice_def)






section \<open>Changing the password\<close>












section \<open>Isolation of the users\<close>

lemma paginate_subset:
  "paginate_queryset page page_size rows = Inr xs \<Longrightarrow> set xs \<subseteq> set rows"
proof -
  assume "paginate_queryset page page_size rows = Inr xs"
  then obtain n m where "xs = take n (drop m rows)"
    by (auto simp: paginate_queryset_def Let_def split: if_splits)
  then show ?thesis
    using set_take_subset [of n "drop m rows"] set_drop_subset [of m rows] by blast
qed

lemma category_list_owned:
  assumes "category_list user q s = Inr rows"
  shows "\<forall>c \<in> set rows. cat_user c = user"
proof
  fix c assume "c \<in> set rows"
  with paginate_subset [OF assms [unfolded category_list_def]]
  have "c \<in> set (category_filter q (category_get_queryset user s))"
    by (auto simp: category_filter_queryset_def)
  with category_filter_subset have "c \<in> set (category_get_queryset user s)" by blast
  then show "cat_user c = user" by (simp add: category_get_queryset_def)
qed

lemma transaction_list_owned:
  assumes "transaction_list user q s = Inr rows"
  shows "\<forall>r \<in> set rows. tx_user (tr_row r) = user"
proof
  fix r assume r: "r \<in> set rows"
  from assms obtain page where p: "paginate_queryset (tq_page q) (tq_page_size q)
      (transaction_filter_queryset (categories s) q (transaction_get_queryset user s)) = Inr page"
    and rows: "rows = map (transaction_to_representation (categories s)) page"
    by (cases "paginate_queryset (tq_page q) (tq_page_size q)
      (transaction_filter_queryset (categories s) q (transaction_get_queryset user s))")
      (auto simp: transaction_list_def)
  from r rows obtain t where t: "t \<in> set page" "r = transaction_to_representation (categories s) t"
    by auto
  with paginate_subset [OF p]
  have "t \<in> set (transaction_filter (categories s) q (transaction_get_queryset user s))"
    by (auto simp: transaction_filter_queryset_def)
  with transaction_filter_subset have "t \<in> set (transaction_get_queryset user s)" by blast
  with t(2) show "tx_user (tr_row r) = user"
    by (simp add: transaction_get_queryset_def transaction_to_representation_def)
qed

lemma budget_list_owned:
  assumes "budget_list user q s = Inr rows"
  shows "\<forall>r \<in> set rows. bg_user (br_row r) = user"
proof
  fix r assume r: "r \<in> set rows"
  from assms obtain page where p: "paginate_queryset (bq_page q) (bq_page_size q)
      (budget_filter_queryset (categories s) q (budget_get_queryset user s)) = Inr page"
    and rows: "rows = map (budget_to_representation (categories s)) page"
    by (cases "paginate_queryset (bq_page q) (bq_page_size q)
      (budget_filter_queryset (categories s) q (budget_get_queryset user s))")
      (auto simp: budget_list_def)
  from r rows obtain t where t: "t \<in> set page" "r = budget_to_representation (categories s) t"
    by auto
  with paginate_subset [OF p]
  have "t \<in> set (budget_filter (categories s) q (budget_get_queryset user s))"
    by (auto simp: budget_filter_queryset_def)
  with budget_filter_subset have "t \<in> set (budget_get_queryset user s)" by blast
  with t(2) show "bg_user (br_row r) = user"
    by (simp add: budget_get_queryset_def budget_to_representation_def)
qed

text \<open>A primary key that belongs to another user's row is not in the caller's queryset.\<close>

lemma unique_key_owner:
  assumes "distinct (map key rows)" and "x \<in> set rows" and "y \<in> set rows" and "key x = key y"
  shows "x = y"
proof -
  from assms(1) have "inj_on key (set rows)" by (simp add: distinct_map)
  with assms(2-4) show ?thesis by (auto dest: inj_onD)
qed

lemma category_foreign_404:
  assumes d: "distinct (map cat_id (categories s))"
    and f: "\<exists>c \<in> set (categories s). cat_id c = pk \<and> cat_user c = other" and ne: "user \<noteq> other"
  shows "category_get_object user q pk s = Inl Http404"
proof (cases "category_get_object user q pk s")
  case (Inl e)
  then show ?thesis by (auto simp: category_get_object_def split: option.splits)
next
  case (Inr c)
  from category_get_objectD [OF Inr] have c: "cat_id c = pk" "cat_user c = user"
    "c \<in> set (categories s)" by simp_all
  from f obtain c' where c': "c' \<in> set (categories s)" "cat_id c' = pk" "cat_user c' = other"
    by blast
  from unique_key_owner [OF d c(3) c'(1)] c(1) c'(2) have "c = c'" by simp
  with c(2) c'(3) ne show ?thesis by simp
qed

lemma transaction_foreign_404:
  assumes d: "distinct (map tx_id (transactions s))"
    and f: "\<exists>c \<in> set (transactions s). tx_id c = pk \<and> tx_user c = other" and ne: "user \<noteq> other"
  shows "transaction_get_object user q pk s = Inl Http404"
proof (cases "transaction_get_object user q pk s")
  case (Inl e)
  then show ?thesis by (auto simp: transaction_get_object_def split: option.splits)
next
  case (Inr c)
  from transaction_get_objectD [OF Inr] have c: "tx_id c = pk" "tx_user c = user"
    "c \<in> set (transactions s)" by simp_all
  from f obtain c' where c': "c' \<in> set (transactions s)" "tx_id c' = pk" "tx_user c' = other"
    by blast
  from unique_key_owner [OF d c(3) c'(1)] c(1) c'(2) have "c = c'" by simp
  with c(2) c'(3) ne show ?thesis by simp
qed

lemma budget_foreign_404:
  assumes d: "distinct (map bg_id (budgets s))"
    and f: "\<exists>c \<in> set (budgets s). bg_id c = pk \<and> bg_user c = other" and ne: "user \<noteq> other"
  shows "budget_get_object user q pk s = Inl Http404"
proof (cases "budget_get_object user q pk s")
  case (Inl e)
  then show ?thesis by (auto simp: budget_get_object_def split: option.splits)
next
  case (Inr c)
  from budget_get_objectD [OF Inr] have c: "bg_id c = pk" "bg_user c = user"
    "c \<in> set (budgets s)" by simp_all
  from f obtain c' where c': "c' \<in> set (budgets s)" "bg_id c' = pk" "bg_user c' = other"
    by blast
  from unique_key_owner [OF d c(3) c'(1)] c(1) c'(2) have "c = c'" by simp
  with c(2) c'(3) ne show ?thesis by simp
qed

lemma filter_map_frame:
  "(\<And>r. r \<in> set rows \<Longrightarrow> (P (f r) \<longleftrightarrow> P r) \<and> (P r \<longrightarrow> f r = r))
     \<Longrightarrow> filter P (map f rows) = filter P rows"
  by (induction rows) auto

lemma filter_replace_other:
  assumes d: "distinct (map key rows)" and i: "inst \<in> set rows" and k: "key row = key inst"
    and ni: "\<not> P inst" and nr: "\<not> P row"
  shows "filter P (map (\<lambda>r. if key r = key row then row else r) rows) = filter P rows"
proof (rule filter_map_frame)
  fix r assume r: "r \<in> set rows"
  show "(P (if key r = key row then row else r) \<longleftrightarrow> P r)
      \<and> (P r \<longrightarrow> (if key r = key row then row else r) = r)"
  proof (cases "key r = key row")
    case True
    with k have "key r = key inst" by simp
    from unique_key_owner [OF d r i this] have "r = inst" .
    with True ni nr show ?thesis by simp
  next
    case False then show ?thesis by simp
  qed
qed

lemma filter_filter_frame:
  "(\<And>r. r \<in> set rows \<Longrightarrow> P r \<Longrightarrow> Q r) \<Longrightarrow> filter P (filter Q rows) = filter P rows"
  by (induction rows) auto

lemma rows_of_eqI:
  assumes "filter (\<lambda>c. cat_user c = u) (categories s') = filter (\<lambda>c. cat_user c = u) (categories s)"
    and "filter (\<lambda>t. tx_user t = u) (transactions s') = filter (\<lambda>t. tx_user t = u) (transactions s)"
    and "filter (\<lambda>b. bg_user b = u) (budgets s') = filter (\<lambda>b. bg_user b = u) (budgets s)"
  shows "rows_of u s' = rows_of u s"
  using assms by (simp add: rows_of_def)

text \<open>Creates.\<close>

lemma category_create_frame:
  assumes c: "category_create user p now s = Inr (row, s')" and ne: "user \<noteq> other"
  shows "rows_of other s' = rows_of other s"
proof -
  from c obtain vd where "category_insert (vd\<lparr>cd_user := Some user\<rparr>) now s = Inr (row, s')"
    by (auto simp: category_create_def category_serializer_create_def split: sum.splits)
  then have "cat_user row = user" and "s' = s\<lparr>categories := categories s @ [row]\<rparr>"
    by (auto simp: category_insert_def Let_def split: if_splits)
  with ne show ?thesis by (simp add: rows_of_def)
qed

lemma transaction_create_frame:
  assumes c: "transaction_create user p now s = Inr (row, s')" and ne: "user \<noteq> other"
  shows "rows_of other s' = rows_of other s"
proof -
  from c obtain vd where
    "transaction_insert (vd\<lparr>td_user := Some user\<rparr>) now s = Inr (row, s')"
    by (auto simp: transaction_create_def transaction_serializer_create_def split: sum.splits)
  then have "tx_user row = user" and "s' = s\<lparr>transactions := transactions s @ [row]\<rparr>"
    by (auto simp: transaction_insert_def Let_def split: option.splits)
  with ne show ?thesis by (simp add: rows_of_def)
qed

lemma budget_create_frame:
  assumes c: "budget_create user cy p now s = Inr (row, s')" and ne: "user \<noteq> other"
  shows "rows_of other s' = rows_of other s"
proof -
  from c obtain vd where "budget_insert (vd\<lparr>bd_user := Some user\<rparr>) now s = Inr (row, s')"
    by (auto simp: budget_create_def budget_serializer_create_def split: sum.splits)
  then have "bg_user row = user" and "s' = s\<lparr>budgets := budgets s @ [row]\<rparr>"
    by (auto simp: budget_insert_def Let_def split: option.splits if_splits)
  with ne show ?thesis by (simp add: rows_of_def)
qed

text \<open>Updates.\<close>

lemma category_update_frame:
  assumes u: "category_update user q pk partial p s = Inr (row, s')"
    and d: "distinct (map cat_id (categories s))" and ne: "user \<noteq> other"
  shows "rows_of other s' = rows_of other s"
proof -
  from u obtain inst vd where g: "category_get_object user q pk s = Inr inst"
    and v: "category_is_valid partial p = Inr vd"
    and w: "category_serializer_update inst vd s = Inr (row, s')"
    by (auto simp: category_update_def split: sum.splits)
  from category_get_objectD [OF g] have i: "cat_user inst = user" "inst \<in> set (categories s)"
    by simp_all
  from category_is_valid_user [OF v] have n: "cd_user vd = None" .
  from w n have r: "cat_user row = cat_user inst" "cat_id row = cat_id inst"
    and s': "s' = s\<lparr>categories := map (\<lambda>c. if cat_id c = cat_id row then row else c) (categories s)\<rparr>"
    by (auto simp: category_serializer_update_def Let_def split: if_splits)
  from i r ne have "\<not> cat_user inst = other" "\<not> cat_user row = other" by simp_all
  from filter_replace_other [OF d i(2) r(2), of "\<lambda>c. cat_user c = other", OF this]
  show ?thesis unfolding s' by (simp add: rows_of_def)
qed

lemma transaction_update_frame:
  assumes u: "transaction_update user q pk partial p s = Inr (row, s')"
    and d: "distinct (map tx_id (transactions s))" and ne: "user \<noteq> other"
  shows "rows_of other s' = rows_of other s"
proof -
  from u obtain inst vd where g: "transaction_get_object user q pk s = Inr inst"
    and w: "transaction_serializer_update inst vd s = Inr (row, s')"
    by (auto simp: transaction_update_def split: sum.splits)
  from transaction_get_objectD [OF g] have i: "tx_user inst = user" "inst \<in> set (transactions s)"
    by simp_all
  from w have r: "tx_user row = tx_user inst" "tx_id row = tx_id inst"
    and s': "s' = s\<lparr>transactions :=
        map (\<lambda>c. if tx_id c = tx_id row then row else c) (transactions s)\<rparr>"
    by (auto simp: transaction_serializer_update_def Let_def)
  from i r ne have "\<not> tx_user inst = other" "\<not> tx_user row = other" by simp_all
  from filter_replace_other [OF d i(2) r(2), of "\<lambda>c. tx_user c = other", OF this]
  show ?thesis unfolding s' by (simp add: rows_of_def)
qed

lemma budget_update_frame:
  assumes u: "budget_update user cy q pk partial p s = Inr (row, s')"
    and d: "distinct (map bg_id (budgets s))" and ne: "user \<noteq> other"
  shows "rows_of other s' = rows_of other s"
proof -
  from u obtain inst vd where g: "budget_get_object user q pk s = Inr inst"
    and w: "budget_serializer_update inst vd s = Inr (row, s')"
    by (auto simp: budget_update_def split: sum.splits)
  from budget_get_objectD [OF g] have i: "bg_user inst = user" "inst \<in> set (budgets s)"
    by simp_all
  from w have r: "bg_user row = bg_user inst" "bg_id row = bg_id inst"
    and s': "s' = s\<lparr>budgets := map (\<lambda>c. if bg_id c = bg_id row then row else c) (budgets s)\<rparr>"
    by (auto simp: budget_serializer_update_def Let_def split: if_splits)
  from i r ne have "\<not> bg_user inst = other" "\<not> bg_user row = other" by simp_all
  from filter_replace_other [OF d i(2) r(2), of "\<lambda>c. bg_user c = other", OF this]
  show ?thesis unfolding s' by (simp add: rows_of_def)
qed

lemma refs_ok_transaction:
  assumes "refs_ok s" and "t \<in> set (transactions s)" and "tx_category t = Some k"
  shows "\<exists>c \<in> set (categories s). cat_id c = k \<and> cat_user c = tx_user t"
proof -
  from assms(1,2) have "case tx_category t of None \<Rightarrow> True
      | Some k \<Rightarrow> (\<exists>c \<in> set (categories s). cat_id c = k \<and> cat_user c = tx_user t)"
    unfolding refs_ok_def by blast
  with assms(3) show ?thesis by simp
qed

lemma refs_ok_budget:
  assumes "refs_ok s" and "b \<in> set (budgets s)"
  shows "\<exists>c \<in> set (categories s). cat_id c = bg_category b \<and> cat_user c = bg_user b"
  using assms unfolding refs_ok_def by blast

text \<open>Deletes.\<close>

lemma transaction_destroy_frame:
  assumes u: "transaction_destroy user q pk s = Inr s'"
    and d: "distinct (map tx_id (transactions s))" and ne: "user \<noteq> other"
  shows "rows_of other s' = rows_of other s"
proof -
  from u obtain inst where g: "transaction_get_object user q pk s = Inr inst"
    and s': "s' = transaction_delete (tx_id inst) s"
    by (auto simp: transaction_destroy_def split: sum.splits)
  from transaction_get_objectD [OF g] have i: "tx_user inst = user" "inst \<in> set (transactions s)"
    by simp_all
  have "filter (\<lambda>t. tx_user t = other) (filter (\<lambda>t. tx_id t \<noteq> tx_id inst) (transactions s))
      = filter (\<lambda>t. tx_user t = other) (transactions s)"
  proof (rule filter_filter_frame)
    fix r assume r: "r \<in> set (transactions s)" "tx_user r = other"
    show "tx_id r \<noteq> tx_id inst"
    proof
      assume "tx_id r = tx_id inst"
      from unique_key_owner [OF d r(1) i(2) this] r(2) i(1) ne show False by simp
    qed
  qed
  then show ?thesis unfolding s' by (simp add: rows_of_def transaction_delete_def)
qed

lemma budget_destroy_frame:
  assumes u: "budget_destroy user q pk s = Inr s'"
    and d: "distinct (map bg_id (budgets s))" and ne: "user \<noteq> other"
  shows "rows_of other s' = rows_of other s"
proof -
  from u obtain inst where g: "budget_get_object user q pk s = Inr inst"
    and s': "s' = budget_delete (bg_id inst) s"
    by (auto simp: budget_destroy_def split: sum.splits)
  from budget_get_objectD [OF g] have i: "bg_user inst = user" "inst \<in> set (budgets s)"
    by simp_all
  have "filter (\<lambda>t. bg_user t = other) (filter (\<lambda>t. bg_id t \<noteq> bg_id inst) (budgets s))
      = filter (\<lambda>t. bg_user t = other) (budgets s)"
  proof (rule filter_filter_frame)
    fix r assume r: "r \<in> set (budgets s)" "bg_user r = other"
    show "bg_id r \<noteq> bg_id inst"
    proof
      assume "bg_id r = bg_id inst"
      from unique_key_owner [OF d r(1) i(2) this] r(2) i(1) ne show False by simp
    qed
  qed
  then show ?thesis unfolding s' by (simp add: rows_of_def budget_delete_def)
qed

lemma category_destroy_frame:
  assumes u: "category_destroy user q pk s = Inr s'"
    and d: "distinct (map cat_id (categories s))" and ro: "refs_ok s" and ne: "user \<noteq> other"
  shows "rows_of other s' = rows_of other s"
proof -
  from u obtain inst where g: "category_get_object user q pk s = Inr inst"
    and s': "s' = category_delete (cat_id inst) s"
    by (auto simp: category_destroy_def split: sum.splits)
  from category_get_objectD [OF g] have i: "cat_user inst = user" "inst \<in> set (categories s)"
    by simp_all
  have own: "\<And>c. c \<in> set (categories s) \<Longrightarrow> cat_id c = cat_id inst \<Longrightarrow> cat_user c = user"
  proof -
    fix c assume "c \<in> set (categories s)" "cat_id c = cat_id inst"
    from unique_key_owner [OF d this(1) i(2) this(2)] i(1) show "cat_user c = user" by simp
  qed
  have 1: "filter (\<lambda>c. cat_user c = other) (filter (\<lambda>c. cat_id c \<noteq> cat_id inst) (categories s))
      = filter (\<lambda>c. cat_user c = other) (categories s)"
  proof (rule filter_filter_frame)
    fix r assume r: "r \<in> set (categories s)" "cat_user r = other"
    show "cat_id r \<noteq> cat_id inst"
    proof
      assume "cat_id r = cat_id inst"
      from own [OF r(1) this] r(2) ne show False by simp
    qed
  qed
  have 2: "filter (\<lambda>t. tx_user t = other)
        (map (\<lambda>t. if tx_category t = Some (cat_id inst) then t\<lparr>tx_category := None\<rparr> else t)
           (transactions s))
      = filter (\<lambda>t. tx_user t = other) (transactions s)"
  proof (rule filter_map_frame)
    fix r assume r: "r \<in> set (transactions s)"
    have a: "tx_user (if tx_category r = Some (cat_id inst) then r\<lparr>tx_category := None\<rparr> else r)
        = tx_user r" by simp
    have b: "tx_user r = other \<longrightarrow> tx_category r \<noteq> Some (cat_id inst)"
    proof (intro impI notI)
      assume o: "tx_user r = other" and k: "tx_category r = Some (cat_id inst)"
      from refs_ok_transaction [OF ro r k] obtain c where "c \<in> set (categories s)"
        "cat_id c = cat_id inst" "cat_user c = tx_user r"
        by blast
      with own [OF this(1,2)] o ne show False by simp
    qed
    from a b show "(tx_user (if tx_category r = Some (cat_id inst)
            then r\<lparr>tx_category := None\<rparr> else r) = other \<longleftrightarrow> tx_user r = other)
        \<and> (tx_user r = other \<longrightarrow>
            (if tx_category r = Some (cat_id inst) then r\<lparr>tx_category := None\<rparr> else r) = r)"
      by (simp only: a) simp
  qed
  have 3: "filter (\<lambda>b. bg_user b = other)
        (filter (\<lambda>b. bg_category b \<noteq> cat_id inst) (budgets s))
      = filter (\<lambda>b. bg_user b = other) (budgets s)"
  proof (rule filter_filter_frame)
    fix r assume r: "r \<in> set (budgets s)" "bg_user r = other"
    show "bg_category r \<noteq> cat_id inst"
    proof
      assume k: "bg_category r = cat_id inst"
      from refs_ok_budget [OF ro r(1)] obtain c where "c \<in> set (categories s)"
        "cat_id c = bg_category r" "cat_user c = bg_user r"
        by blast
      with own [of c] k r(2) ne show False by simp
    qed
  qed
  from 1 2 3 show ?thesis unfolding s' by (simp add: rows_of_def category_delete_def)
qed

lemma find_unique:
  "distinct (map key xs) \<Longrightarrow> x \<in> set xs \<Longrightarrow> find (\<lambda>y. key y = key x) xs = Some x"
proof (induction xs)
  case Nil then show ?case by simp
next
  case (Cons a xs)
  show ?case
  proof (cases "a = x")
    case True then show ?thesis by simp
  next
    case False
    with Cons.prems have x: "x \<in> set xs" by simp
    with Cons.prems have "key a \<noteq> key x" by (auto simp: image_iff)
    with Cons x show ?thesis by simp
  qed
qed

lemma category_by_pk_owned:
  assumes d: "distinct (map cat_id cs)" and c: "c \<in> set cs" and o: "cat_user c = u"
  shows "category_by_pk cs (cat_id c) = Some c
       \<and> category_by_pk (filter (\<lambda>c. cat_user c = u) cs) (cat_id c) = Some c"
proof -
  from d have d': "distinct (map cat_id (filter (\<lambda>c. cat_user c = u) cs))"
    by (rule distinct_map_filter)
  from c o have c': "c \<in> set (filter (\<lambda>c. cat_user c = u) cs)" by simp
  from find_unique [OF d c] find_unique [OF d' c'] show ?thesis
    by (simp add: category_by_pk_def)
qed

lemma category_detail_owned:
  assumes d: "distinct (map cat_id cs)"
    and r: "case ref of None \<Rightarrow> True | Some k \<Rightarrow> (\<exists>c \<in> set cs. cat_id c = k \<and> cat_user c = u)"
  shows "category_detail cs ref = category_detail (filter (\<lambda>c. cat_user c = u) cs) ref"
proof (cases ref)
  case None then show ?thesis by (simp add: category_detail_def)
next
  case (Some k)
  with r obtain c where c: "c \<in> set cs" "cat_id c = k" "cat_user c = u" by auto
  from category_by_pk_owned [OF d c(1) c(3)] c(2) Some show ?thesis
    by (simp add: category_detail_def)
qed

lemma category_name_owned:
  assumes d: "distinct (map cat_id cs)"
    and r: "case ref of None \<Rightarrow> True | Some k \<Rightarrow> (\<exists>c \<in> set cs. cat_id c = k \<and> cat_user c = u)"
  shows "category_name cs ref = category_name (filter (\<lambda>c. cat_user c = u) cs) ref"
  unfolding category_name_def by (simp only: category_detail_owned [OF d r])

lemma transaction_ref_owned:
  assumes "refs_ok s" and "t \<in> set (transactions s)" and "tx_user t = u"
  shows "case tx_category t of None \<Rightarrow> True
      | Some k \<Rightarrow> (\<exists>c \<in> set (categories s). cat_id c = k \<and> cat_user c = u)"
  using assms unfolding refs_ok_def by blast

lemma budget_ref_owned:
  assumes "refs_ok s" and "b \<in> set (budgets s)" and "bg_user b = u"
  shows "case Some (bg_category b) of None \<Rightarrow> True
      | Some k \<Rightarrow> (\<exists>c \<in> set (categories s). cat_id c = k \<and> cat_user c = u)"
  using refs_ok_budget [OF assms(1,2)] assms(3) by simp

lemma cmp_terms_cong:
  "(\<And>n. f n a b = g n a b) \<Longrightarrow> cmp_terms f ts a b = cmp_terms g ts a b"
  by (induction ts) (auto split: cmp.splits)

lemma insort_by_cong:
  "(\<And>y. y \<in> set ys \<Longrightarrow> le1 x y = le2 x y) \<Longrightarrow> insort_by le1 x ys = insort_by le2 x ys"
  by (induction ys) simp_all

lemma order_by_cong:
  assumes "\<And>n a b. a \<in> set rows \<Longrightarrow> b \<in> set rows \<Longrightarrow> f n a b = g n a b"
  shows "order_by f ts rows = order_by g ts rows"
  using assms
proof (induction rows)
  case Nil then show ?case by (simp add: order_by_def)
next
  case (Cons x xs)
  from Cons have ih: "order_by f ts xs = order_by g ts xs" by simp
  have "insort_by (\<lambda>a b. cmp_terms f ts a b \<noteq> GT) x (order_by g ts xs)
      = insort_by (\<lambda>a b. cmp_terms g ts a b \<noteq> GT) x (order_by g ts xs)"
  proof (rule insort_by_cong)
    fix y assume "y \<in> set (order_by g ts xs)"
    then have y: "y \<in> set (x # xs)" by simp
    have "cmp_terms f ts x y = cmp_terms g ts x y"
      by (rule cmp_terms_cong) (rule Cons.prems, simp, rule y)
    then show "(cmp_terms f ts x y \<noteq> GT) = (cmp_terms g ts x y \<noteq> GT)" by simp
  qed
  with ih show ?case by (simp add: order_by_def)
qed

lemma categories_rows_of:
  "categories (rows_of u s) = filter (\<lambda>c. cat_user c = u) (categories s)"
  by (simp add: rows_of_def)

lemma category_queryset_rows_of:
  "category_get_queryset u (rows_of u s) = category_get_queryset u s"
  by (simp add: category_get_queryset_def rows_of_def)

lemma transaction_queryset_rows_of:
  "transaction_get_queryset u (rows_of u s) = transaction_get_queryset u s"
  by (simp add: transaction_get_queryset_def rows_of_def)

lemma budget_queryset_rows_of:
  "budget_get_queryset u (rows_of u s) = budget_get_queryset u s"
  by (simp add: budget_get_queryset_def rows_of_def)

lemma category_reads_rows_of:
  "category_list u q (rows_of u s) = category_list u q s
   \<and> category_retrieve u q pk (rows_of u s) = category_retrieve u q pk s"
  by (simp add: category_list_def category_retrieve_def category_get_object_def
      category_queryset_rows_of)

text \<open>Transactions.\<close>

lemma transaction_name_rows_of:
  assumes w: "well_formed s" and t: "t \<in> set (transaction_get_queryset u s)"
  shows "category_name (categories (rows_of u s)) (tx_category t)
           = category_name (categories s) (tx_category t)"
    and "category_detail (categories (rows_of u s)) (tx_category t)
           = category_detail (categories s) (tx_category t)"
proof -
  from w have d: "distinct (map cat_id (categories s))" and ro: "refs_ok s"
    by (simp_all add: well_formed_def pks_unique_def)
  from t have "t \<in> set (transactions s)" "tx_user t = u"
    by (simp_all add: transaction_get_queryset_def)
  from transaction_ref_owned [OF ro this] have r: "case tx_category t of None \<Rightarrow> True
      | Some k \<Rightarrow> (\<exists>c \<in> set (categories s). cat_id c = k \<and> cat_user c = u)" .
  show "category_name (categories (rows_of u s)) (tx_category t)
           = category_name (categories s) (tx_category t)"
    unfolding categories_rows_of by (rule category_name_owned [OF d r, symmetric])
  show "category_detail (categories (rows_of u s)) (tx_category t)
           = category_detail (categories s) (tx_category t)"
    unfolding categories_rows_of by (rule category_detail_owned [OF d r, symmetric])
qed

lemma transaction_filter_rows_of:
  assumes w: "well_formed s"
  shows "transaction_filter (categories (rows_of u s)) q (transaction_get_queryset u s)
       = transaction_filter (categories s) q (transaction_get_queryset u s)"
  unfolding transaction_filter_def
proof (rule filter_cong [OF refl])
  fix t assume "t \<in> set (transaction_get_queryset u s)"
  note e = transaction_name_rows_of(1) [OF w this]
  show "((case tq_category q of None \<Rightarrow> True | Some k \<Rightarrow> tx_category t = Some k)
     \<and> (case tq_min_amount q of None \<Rightarrow> True | Some a \<Rightarrow> a \<le> tx_amount t)
     \<and> (case tq_max_amount q of None \<Rightarrow> True | Some a \<Rightarrow> tx_amount t \<le> a)
     \<and> (case tq_start_date q of None \<Rightarrow> True | Some d \<Rightarrow> d \<le> tx_date t)
     \<and> (case tq_end_date q of None \<Rightarrow> True | Some d \<Rightarrow> tx_date t \<le> d)
     \<and> (case tq_transaction_type q of None \<Rightarrow> True | Some k \<Rightarrow> tx_transaction_type t = k)
     \<and> (\<forall>w \<in> set (tq_search q). icontains (tx_description t) w
           \<or> (case category_name (categories (rows_of u s)) (tx_category t) of None \<Rightarrow> False
               | Some n \<Rightarrow> icontains n w)))
    = ((case tq_category q of None \<Rightarrow> True | Some k \<Rightarrow> tx_category t = Some k)
     \<and> (case tq_min_amount q of None \<Rightarrow> True | Some a \<Rightarrow> a \<le> tx_amount t)
     \<and> (case tq_max_amount q of None \<Rightarrow> True | Some a \<Rightarrow> tx_amount t \<le> a)
     \<and> (case tq_start_date q of None \<Rightarrow> True | Some d \<Rightarrow> d \<le> tx_date t)
     \<and> (case tq_end_date q of None \<Rightarrow> True | Some d \<Rightarrow> tx_date t \<le> d)
     \<and> (case tq_transaction_type q of None \<Rightarrow> True | Some k \<Rightarrow> tx_transaction_type t = k)
     \<and> (\<forall>w \<in> set (tq_search q). icontains (tx_description t) w
           \<or> (case category_name (categories s) (tx_category t) of None \<Rightarrow> False
               | Some n \<Rightarrow> icontains n w)))"
    by (simp only: e)
qed

lemma transaction_filter_queryset_rows_of:
  assumes w: "well_formed s"
  shows "transaction_filter_queryset (categories (rows_of u s)) q (transaction_get_queryset u s)
       = transaction_filter_queryset (categories s) q (transaction_get_queryset u s)"
proof -
  let ?rows = "transaction_filter (categories s) q (transaction_get_queryset u s)"
  have "\<And>ts. order_by (transaction_cmp (categories (rows_of u s))) ts ?rows
      = order_by (transaction_cmp (categories s)) ts ?rows"
  proof (rule order_by_cong)
    fix n a b assume "a \<in> set ?rows" "b \<in> set ?rows"
    with transaction_filter_subset have "a \<in> set (transaction_get_queryset u s)"
      "b \<in> set (transaction_get_queryset u s)" by blast+
    note ea = transaction_name_rows_of(1) [OF w this(1)]
      and eb = transaction_name_rows_of(1) [OF w this(2)]
    show "transaction_cmp (categories (rows_of u s)) n a b = transaction_cmp (categories s) n a b"
      by (simp only: transaction_cmp_def ea eb)
  qed
  then show ?thesis
    by (simp only: transaction_filter_queryset_def transaction_filter_rows_of [OF w])
qed

lemma filter_queryset_subset_transactions:
  "set (transaction_filter_queryset cs q rows) \<subseteq> set rows"
  using transaction_filter_subset by (simp add: transaction_filter_queryset_def)

lemma transaction_reads_rows_of:
  assumes w: "well_formed s"
  shows "transaction_list u q (rows_of u s) = transaction_list u q s
       \<and> transaction_retrieve u q pk (rows_of u s) = transaction_retrieve u q pk s"
proof -
  let ?qs = "transaction_filter_queryset (categories s) q (transaction_get_queryset u s)"
  have rep: "\<And>t. t \<in> set ?qs \<Longrightarrow> transaction_to_representation (categories (rows_of u s)) t
      = transaction_to_representation (categories s) t"
  proof -
    fix t assume "t \<in> set ?qs"
    with filter_queryset_subset_transactions have "t \<in> set (transaction_get_queryset u s)"
      by blast
    from transaction_name_rows_of(2) [OF w this] show
      "transaction_to_representation (categories (rows_of u s)) t
        = transaction_to_representation (categories s) t"
      by (simp add: transaction_to_representation_def)
  qed
  have l: "transaction_list u q (rows_of u s) = transaction_list u q s"
  proof (cases "paginate_queryset (tq_page q) (tq_page_size q) ?qs")
    case (Inl e)
    then show ?thesis
      by (simp add: transaction_list_def transaction_queryset_rows_of
          transaction_filter_queryset_rows_of [OF w])
  next
    case (Inr page)
    from paginate_subset [OF Inr] rep
    have "map (transaction_to_representation (categories (rows_of u s))) page
        = map (transaction_to_representation (categories s)) page"
      by (auto intro: map_cong)
    with Inr show ?thesis
      by (simp add: transaction_list_def transaction_queryset_rows_of
          transaction_filter_queryset_rows_of [OF w])
  qed
  have g: "transaction_get_object u q pk (rows_of u s) = transaction_get_object u q pk s"
    by (simp add: transaction_get_object_def transaction_queryset_rows_of
        transaction_filter_queryset_rows_of [OF w])
  have r: "transaction_retrieve u q pk (rows_of u s) = transaction_retrieve u q pk s"
  proof (cases "transaction_get_object u q pk s")
    case (Inl e)
    with g show ?thesis by (simp add: transaction_retrieve_def)
  next
    case (Inr t)
    then have "find (\<lambda>t. tx_id t = pk) ?qs = Some t"
      by (simp add: transaction_get_object_def split: option.splits)
    then have "t \<in> set ?qs" by (auto dest: find_SomeD)
    from rep [OF this] Inr g show ?thesis by (simp add: transaction_retrieve_def)
  qed
  from l r show ?thesis by simp
qed

text \<open>Budgets.\<close>

lemma budget_name_rows_of:
  assumes w: "well_formed s" and t: "b \<in> set (budget_get_queryset u s)"
  shows "category_name (categories (rows_of u s)) (Some (bg_category b))
           = category_name (categories s) (Some (bg_category b))"
    and "category_detail (categories (rows_of u s)) (Some (bg_category b))
           = category_detail (categories s) (Some (bg_category b))"
proof -
  from w have d: "distinct (map cat_id (categories s))" and ro: "refs_ok s"
    by (simp_all add: well_formed_def pks_unique_def)
  from t have "b \<in> set (budgets s)" "bg_user b = u"
    by (simp_all add: budget_get_queryset_def)
  from budget_ref_owned [OF ro this] have r: "case Some (bg_category b) of None \<Rightarrow> True
      | Some k \<Rightarrow> (\<exists>c \<in> set (categories s). cat_id c = k \<and> cat_user c = u)" .
  show "category_name (categories (rows_of u s)) (Some (bg_category b))
           = category_name (categories s) (Some (bg_category b))"
    unfolding categories_rows_of by (rule category_name_owned [OF d r, symmetric])
  show "category_detail (categories (rows_of u s)) (Some (bg_category b))
           = category_detail (categories s) (Some (bg_category b))"
    unfolding categories_rows_of by (rule category_detail_owned [OF d r, symmetric])
qed

lemma budget_filter_rows_of:
  assumes w: "well_formed s"
  shows "budget_filter (categories (rows_of u s)) q (budget_get_queryset u s)
       = budget_filter (categories s) q (budget_get_queryset u s)"
  unfolding budget_filter_def
proof (rule filter_cong [OF refl])
  fix b assume "b \<in> set (budget_get_queryset u s)"
  note e = budget_name_rows_of(1) [OF w this]
  show "((case bq_category q of None \<Rightarrow> True | Some k \<Rightarrow> bg_category b = k)
     \<and> (case bq_month q of None \<Rightarrow> True | Some m \<Rightarrow> bg_month b = m)
     \<and> (case bq_year q of None \<Rightarrow> True | Some y \<Rightarrow> bg_year b = y)
     \<and> (case bq_min_amount q of None \<Rightarrow> True | Some a \<Rightarrow> a \<le> bg_amount b)
     \<and> (case bq_max_amount q of None \<Rightarrow> True | Some a \<Rightarrow> bg_amount b \<le> a)
     \<and> (\<forall>w \<in> set (bq_search q).
           (case category_name (categories (rows_of u s)) (Some (bg_category b)) of
              None \<Rightarrow> False
            | Some n \<Rightarrow> icontains n w)))
    = ((case bq_category q of None \<Rightarrow> True | Some k \<Rightarrow> bg_category b = k)
     \<and> (case bq_month q of None \<Rightarrow> True | Some m \<Rightarrow> bg_month b = m)
     \<and> (case bq_year q of None \<Rightarrow> True | Some y \<Rightarrow> bg_year b = y)
     \<and> (case bq_min_amount q of None \<Rightarrow> True | Some a \<Rightarrow> a \<le> bg_amount b)
     \<and> (case bq_max_amount q of None \<Rightarrow> True | Some a \<Rightarrow> bg_amount b \<le> a)
     \<and> (\<forall>w \<in> set (bq_search q).
           (case category_name (categories s) (Some (bg_category b)) of
              None \<Rightarrow> False
            | Some n \<Rightarrow> icontains n w)))"
    by (simp only: e)
qed

lemma budget_filter_queryset_rows_of:
  assumes w: "well_formed s"
  shows "budget_filter_queryset (categories (rows_of u s)) q (budget_get_queryset u s)
       = budget_filter_queryset (categories s) q (budget_get_queryset u s)"
proof -
  let ?rows = "budget_filter (categories s) q (budget_get_queryset u s)"
  have "\<And>ts. order_by (budget_cmp (categories (rows_of u s))) ts ?rows
      = order_by (budget_cmp (categories s)) ts ?rows"
  proof (rule order_by_cong)
    fix n a b assume "a \<in> set ?rows" "b \<in> set ?rows"
    with budget_filter_subset have "a \<in> set (budget_get_queryset u s)"
      "b \<in> set (budget_get_queryset u s)" by blast+
    note ea = budget_name_rows_of(1) [OF w this(1)]
      and eb = budget_name_rows_of(1) [OF w this(2)]
    show "budget_cmp (categories (rows_of u s)) n a b = budget_cmp (categories s) n a b"
      by (simp only: budget_cmp_def ea eb)
  qed
  then show ?thesis
    by (simp only: budget_filter_queryset_def budget_filter_rows_of [OF w])
qed

lemma filter_queryset_subset_budgets:
  "set (budget_filter_queryset cs q rows) \<subseteq> set rows"
  using budget_filter_subset by (simp add: budget_filter_queryset_def)

lemma budget_reads_rows_of:
  assumes w: "well_formed s"
  shows "budget_list u q (rows_of u s) = budget_list u q s
       \<and> budget_retrieve u q pk (rows_of u s) = budget_retrieve u q pk s"
proof -
  let ?qs = "budget_filter_queryset (categories s) q (budget_get_queryset u s)"
  have rep: "\<And>t. t \<in> set ?qs \<Longrightarrow> budget_to_representation (categories (rows_of u s)) t
      = budget_to_representation (categories s) t"
  proof -
    fix t assume "t \<in> set ?qs"
    with filter_queryset_subset_budgets have "t \<in> set (budget_get_queryset u s)"
      by blast
    from budget_name_rows_of(2) [OF w this] show
      "budget_to_representation (categories (rows_of u s)) t
        = budget_to_representation (categories s) t"
      by (simp add: budget_to_representation_def)
  qed
  have l: "budget_list u q (rows_of u s) = budget_list u q s"
  proof (cases "paginate_queryset (bq_page q) (bq_page_size q) ?qs")
    case (Inl e)
    then show ?thesis
      by (simp add: budget_list_def budget_queryset_rows_of
          budget_filter_queryset_rows_of [OF w])
  next
    case (Inr page)
    from paginate_subset [OF Inr] rep
    have "map (budget_to_representation (categories (rows_of u s))) page
        = map (budget_to_representation (categories s)) page"
      by (auto intro: map_cong)
    with Inr show ?thesis
      by (simp add: budget_list_def budget_queryset_rows_of
          budget_filter_queryset_rows_of [OF w])
  qed
  have g: "budget_get_object u q pk (rows_of u s) = budget_get_object u q pk s"
    by (simp add: budget_get_object_def budget_queryset_rows_of
        budget_filter_queryset_rows_of [OF w])
  have r: "budget_retrieve u q pk (rows_of u s) = budget_retrieve u q pk s"
  proof (cases "budget_get_object u q pk s")
    case (Inl e)
    with g show ?thesis by (simp add: budget_retrieve_def)
  next
    case (Inr t)
    then have "find (\<lambda>t. bg_id t = pk) ?qs = Some t"
      by (simp add: budget_get_object_def split: option.splits)
    then have "t \<in> set ?qs" by (auto dest: find_SomeD)
    from rep [OF this] Inr g show ?thesis by (simp add: budget_retrieve_def)
  qed
  from l r show ?thesis by simp
qed

text \<open>The reads of a user on two stores that hold the same rows of that user.\<close>

lemma reads_agree:
  assumes w1: "well_formed s1" and w2: "well_formed s2" and e: "rows_of u s1 = rows_of u s2"
  shows "category_list u cq s1 = category_list u cq s2
       \<and> category_retrieve u cq pk s1 = category_retrieve u cq pk s2
       \<and> transaction_list u tq s1 = transaction_list u tq s2
       \<and> transaction_retrieve u tq pk s1 = transaction_retrieve u tq pk s2
       \<and> budget_list u bq s1 = budget_list u bq s2
       \<and> budget_retrieve u bq pk s1 = budget_retrieve u bq pk s2"
proof -
  have c: "category_list u cq s1 = category_list u cq s2"
    "category_retrieve u cq pk s1 = category_retrieve u cq pk s2"
    using category_reads_rows_of [of u cq s1 pk] category_reads_rows_of [of u cq s2 pk] e
    by simp_all
  have t: "transaction_list u tq s1 = transaction_list u tq s2"
    "transaction_retrieve u tq pk s1 = transaction_retrieve u tq pk s2"
    using transaction_reads_rows_of [OF w1, of u tq pk]
      transaction_reads_rows_of [OF w2, of u tq pk] e
    by simp_all
  have b: "budget_list u bq s1 = budget_list u bq s2"
    "budget_retrieve u bq pk s1 = budget_retrieve u bq pk s2"
    using budget_reads_rows_of [OF w1, of u bq pk] budget_reads_rows_of [OF w2, of u bq pk] e
    by simp_all
  from c t b show ?thesis by simp
qed

lemma category_get_object_error:
  "category_get_object user q pk s = Inl e \<Longrightarrow> e = Http404"
  by (auto simp: category_get_object_def split: option.splits)

lemma not_found_category:
  assumes "category_get_object user q pk s = Inl Http404"
  shows "category_retrieve user q pk s = Inl Http404
       \<and> category_update user q pk partial p s = Inl Http404
       \<and> category_destroy user q pk s = Inl Http404"
  using assms by (simp add: category_retrieve_def category_update_def category_destroy_def)

lemma not_found_transaction:
  assumes "transaction_get_object user q pk s = Inl Http404"
  shows "transaction_retrieve user q pk s = Inl Http404
       \<and> transaction_update user q pk partial p s = Inl Http404
       \<and> transaction_destroy user q pk s = Inl Http404"
  using assms
  by (simp add: transaction_retrieve_def transaction_update_def transaction_destroy_def)

lemma not_found_budget:
  assumes "budget_get_object user q pk s = Inl Http404"
  shows "budget_retrieve user q pk s = Inl Http404
       \<and> budget_update user cy q pk partial p s = Inl Http404
       \<and> budget_destroy user q pk s = Inl Http404"
  using assms by (simp add: budget_retrieve_def budget_update_def budget_destroy_def)

text \<open>
  C1. On a store with unique primary keys in which every referenced category belongs to the
  owner of the referencing row, and for two distinct users A and B: the lists of A hold only
  rows of A; retrieve, update and delete by A of a primary key that belongs to a row of B
  answer 404; every create, update and delete by A that succeeds leaves the rows of B, in
  all three tables, exactly as they were; and the lists and retrieves of A give the same
  answers on any other such store that holds the same rows of A, whatever the rows of the
  other users are.
\<close>

theorem owner_isolation:
  assumes w: "well_formed s" and ne: "A \<noteq> B"
  shows "(\<forall>rows. category_list A cq s = Inr rows \<longrightarrow> (\<forall>c \<in> set rows. cat_user c = A))
       \<and> (\<forall>rows. transaction_list A tq s = Inr rows \<longrightarrow>
            (\<forall>r \<in> set rows. tx_user (tr_row r) = A))
       \<and> (\<forall>rows. budget_list A bq s = Inr rows \<longrightarrow> (\<forall>r \<in> set rows. bg_user (br_row r) = A))
       \<and> ((\<exists>c \<in> set (categories s). cat_id c = pk \<and> cat_user c = B) \<longrightarrow>
            category_retrieve A cq pk s = Inl Http404
          \<and> category_update A cq pk partial cp s = Inl Http404
          \<and> category_destroy A cq pk s = Inl Http404)
       \<and> ((\<exists>t \<in> set (transactions s). tx_id t = pk \<and> tx_user t = B) \<longrightarrow>
            transaction_retrieve A tq pk s = Inl Http404
          \<and> transaction_update A tq pk partial tp s = Inl Http404
          \<and> transaction_destroy A tq pk s = Inl Http404)
       \<and> ((\<exists>b \<in> set (budgets s). bg_id b = pk \<and> bg_user b = B) \<longrightarrow>
            budget_retrieve A bq pk s = Inl Http404
          \<and> budget_update A cy bq pk partial bp s = Inl Http404
          \<and> budget_destroy A bq pk s = Inl Http404)
       \<and> (\<forall>row s'. category_create A cp now s = Inr (row, s') \<longrightarrow> rows_of B s' = rows_of B s)
       \<and> (\<forall>row s'. category_update A cq pk partial cp s = Inr (row, s') \<longrightarrow>
            rows_of B s' = rows_of B s)
       \<and> (\<forall>s'. category_destroy A cq pk s = Inr s' \<longrightarrow> rows_of B s' = rows_of B s)
       \<and> (\<forall>row s'. transaction_create A tp now s = Inr (row, s') \<longrightarrow>
            rows_of B s' = rows_of B s)
       \<and> (\<forall>row s'. transaction_update A tq pk partial tp s = Inr (row, s') \<longrightarrow>
            rows_of B s' = rows_of B s)
       \<and> (\<forall>s'. transaction_destroy A tq pk s = Inr s' \<longrightarrow> rows_of B s' = rows_of B s)
       \<and> (\<forall>row s'. budget_create A cy bp now s = Inr (row, s') \<longrightarrow> rows_of B s' = rows_of B s)
       \<and> (\<forall>row s'. budget_update A cy bq pk partial bp s = Inr (row, s') \<longrightarrow>
            rows_of B s' = rows_of B s)
       \<and> (\<forall>s'. budget_destroy A bq pk s = Inr s' \<longrightarrow> rows_of B s' = rows_of B s)
       \<and> (\<forall>s2. well_formed s2 \<and> rows_of A s2 = rows_of A s \<longrightarrow>
            category_list A cq s2 = category_list A cq s
          \<and> category_retrieve A cq pk s2 = category_retrieve A cq pk s
          \<and> transaction_list A tq s2 = transaction_list A tq s
          \<and> transaction_retrieve A tq pk s2 = transaction_retrieve A tq pk s
          \<and> budget_list A bq s2 = budget_list A bq s
          \<and> budget_retrieve A bq pk s2 = budget_retrieve A bq pk s)"
proof -
  from w have dc: "distinct (map cat_id (categories s))"
    and dt: "distinct (map tx_id (transactions s))"
    and db: "distinct (map bg_id (budgets s))" and ro: "refs_ok s"
    by (simp_all add: well_formed_def pks_unique_def)
  have l1: "\<forall>rows. category_list A cq s = Inr rows \<longrightarrow> (\<forall>c \<in> set rows. cat_user c = A)"
    using category_list_owned by blast
  have l2: "\<forall>rows. transaction_list A tq s = Inr rows \<longrightarrow>
            (\<forall>r \<in> set rows. tx_user (tr_row r) = A)"
    using transaction_list_owned by blast
  have l3: "\<forall>rows. budget_list A bq s = Inr rows \<longrightarrow> (\<forall>r \<in> set rows. bg_user (br_row r) = A)"
    using budget_list_owned by blast
  have n1: "(\<exists>c \<in> set (categories s). cat_id c = pk \<and> cat_user c = B) \<longrightarrow>
            category_retrieve A cq pk s = Inl Http404
          \<and> category_update A cq pk partial cp s = Inl Http404
          \<and> category_destroy A cq pk s = Inl Http404"
    using category_foreign_404 [OF dc _ ne] not_found_category by blast
  have n2: "(\<exists>t \<in> set (transactions s). tx_id t = pk \<and> tx_user t = B) \<longrightarrow>
            transaction_retrieve A tq pk s = Inl Http404
          \<and> transaction_update A tq pk partial tp s = Inl Http404
          \<and> transaction_destroy A tq pk s = Inl Http404"
    using transaction_foreign_404 [OF dt _ ne] not_found_transaction by blast
  have n3: "(\<exists>b \<in> set (budgets s). bg_id b = pk \<and> bg_user b = B) \<longrightarrow>
            budget_retrieve A bq pk s = Inl Http404
          \<and> budget_update A cy bq pk partial bp s = Inl Http404
          \<and> budget_destroy A bq pk s = Inl Http404"
    using budget_foreign_404 [OF db _ ne] not_found_budget by blast
  have f1: "\<forall>row s'. category_create A cp now s = Inr (row, s') \<longrightarrow> rows_of B s' = rows_of B s"
    using category_create_frame [OF _ ne] by blast
  have f2: "\<forall>row s'. category_update A cq pk partial cp s = Inr (row, s') \<longrightarrow>
            rows_of B s' = rows_of B s"
    using category_update_frame [OF _ dc ne] by blast
  have f3: "\<forall>s'. category_destroy A cq pk s = Inr s' \<longrightarrow> rows_of B s' = rows_of B s"
    using category_destroy_frame [OF _ dc ro ne] by blast
  have f4: "\<forall>row s'. transaction_create A tp now s = Inr (row, s') \<longrightarrow>
            rows_of B s' = rows_of B s"
    using transaction_create_frame [OF _ ne] by blast
  have f5: "\<forall>row s'. transaction_update A tq pk partial tp s = Inr (row, s') \<longrightarrow>
            rows_of B s' = rows_of B s"
    using transaction_update_frame [OF _ dt ne] by blast
  have f6: "\<forall>s'. transaction_destroy A tq pk s = Inr s' \<longrightarrow> rows_of B s' = rows_of B s"
    using transaction_destroy_frame [OF _ dt ne] by blast
  have f7: "\<forall>row s'. budget_create A cy bp now s = Inr (row, s') \<longrightarrow> rows_of B s' = rows_of B s"
    using budget_create_frame [OF _ ne] by blast
  have f8: "\<forall>row s'. budget_update A cy bq pk partial bp s = Inr (row, s') \<longrightarrow>
            rows_of B s' = rows_of B s"
    using budget_update_frame [OF _ db ne] by blast
  have f9: "\<forall>s'. budget_destroy A bq pk s = Inr s' \<longrightarrow> rows_of B s' = rows_of B s"
    using budget_destroy_frame [OF _ db ne] by blast
  have r: "\<forall>s2. well_formed s2 \<and> rows_of A s2 = rows_of A s \<longrightarrow>
            category_list A cq s2 = category_list A cq s
          \<and> category_retrieve A cq pk s2 = category_retrieve A cq pk s
          \<and> transaction_list A tq s2 = transaction_list A tq s
          \<and> transaction_retrieve A tq pk s2 = transaction_retrieve A tq pk s
          \<and> budget_list A bq s2 = budget_list A bq s
          \<and> budget_retrieve A bq pk s2 = budget_retrieve A bq pk s"
    using reads_agree [OF _ w] by blast
  from l1 l2 l3 n1 n2 n3 f1 f2 f3 f4 f5 f6 f7 f8 f9 r show ?thesis by (intro conjI)
qed

lemma well_formed_groceries_store: "well_formed groceries_store"
  by (simp add: well_formed_def pks_unique_def refs_ok_def groceries_store_def
      alice_groceries_def bob_rent_def weekly_shop_row_def alice_budget_def bob_budget_def)

lemma well_formed_bob_changed_store: "well_formed bob_changed_store"
  by (simp add: well_formed_def pks_unique_def refs_ok_def bob_changed_store_def
      alice_groceries_def bob_rent_def weekly_shop_row_def alice_budget_def)

lemma alice_rows_agree: "rows_of 1 bob_changed_store = rows_of 1 groceries_store"
  by (simp add: rows_of_def bob_changed_store_def groceries_store_def
      alice_groceries_def bob_rent_def weekly_shop_row_def alice_budget_def bob_budget_def)

lemma list_alice_budgets:
  "budget_list 1 no_budget_query groceries_store =
     Inr [\<lparr>br_row = alice_budget, br_category_detail = Some (1, ''Groceries''),
           br_month_name = Some ''May''\<rparr>]"
  by (simp add: budget_list_def budget_filter_queryset_def budget_filter_def
      budget_get_queryset_def paginate_queryset_def get_page_size_def
      budget_to_representation_def month_names_def no_budget_query_def groceries_store_def
      alice_budget_def bob_budget_def alice_groceries_def bob_rent_def queryset_defs
      budget_cmp_def)

theorem owner_isolation_witness:
  "well_formed groceries_store \<and> (1::nat) \<noteq> 2
   \<and> bg_id bob_budget = 2 \<and> bg_user bob_budget = 2
   \<and> budget_retrieve 1 no_budget_query 2 groceries_store = Inl Http404
   \<and> budget_list 1 no_budget_query groceries_store =
       Inr [\<lparr>br_row = alice_budget, br_category_detail = Some (1, ''Groceries''),
             br_month_name = Some ''May''\<rparr>]
   \<and> category_destroy 1 no_category_query 1 groceries_store =
       Inr \<lparr>categories = [bob_rent],
            transactions = [weekly_shop_row, weekly_shop_row\<lparr>tx_id := 2\<rparr>],
            budgets = [bob_budget]\<rparr>
   \<and> rows_of 2 \<lparr>categories = [bob_rent],
            transactions = [weekly_shop_row, weekly_shop_row\<lparr>tx_id := 2\<rparr>],
            budgets = [bob_budget]\<rparr> = rows_of 2 groceries_store
   \<and> well_formed bob_changed_store
   \<and> rows_of 1 bob_changed_store = rows_of 1 groceries_store
   \<and> budget_list 1 no_budget_query bob_changed_store
       = budget_list 1 no_budget_query groceries_store"
proof -
  have ne: "(1::nat) \<noteq> 2" by simp
  have b: "bg_id bob_budget = 2" "bg_user bob_budget = 2"
    "bob_budget \<in> set (budgets groceries_store)"
    by (simp_all add: bob_budget_def groceries_store_def)
  note iso = owner_isolation [OF well_formed_groceries_store ne,
      where pk = 2 and bq = no_budget_query and cq = no_category_query
        and tq = no_transaction_query and partial = True and cp = "\<lparr>cp_user = None, cp_name = None\<rparr>"
        and tp = weekly_shop and bp = raise_budget and cy = 2024 and now = 7]
  from iso b have 1: "budget_retrieve 1 no_budget_query 2 groceries_store = Inl Http404"
    by blast
  from owner_isolation [OF well_formed_groceries_store ne,
      where pk = 1 and bq = no_budget_query and cq = no_category_query
        and tq = no_transaction_query and partial = True and cp = "\<lparr>cp_user = None, cp_name = None\<rparr>"
        and tp = weekly_shop and bp = raise_budget and cy = 2024 and now = 7] destroy_groceries
  have 2: "rows_of 2 \<lparr>categories = [bob_rent],
            transactions = [weekly_shop_row, weekly_shop_row\<lparr>tx_id := 2\<rparr>],
            budgets = [bob_budget]\<rparr> = rows_of 2 groceries_store"
    by blast
  from iso well_formed_bob_changed_store alice_rows_agree
  have 3: "budget_list 1 no_budget_query bob_changed_store
       = budget_list 1 no_budget_query groceries_store"
    by blast
  from well_formed_groceries_store ne b(1,2) 1 2 3 list_alice_budgets destroy_groceries
    well_formed_bob_changed_store alice_rows_agree
  show ?thesis by (intro conjI)
qed

end
